theory Spec2Isabelle
  imports Complex_Main
begin

section \<open>Numbers\<close>

text \<open>
  The scene code computes with JavaScript numbers. They are modelled as real numbers:
  \<open>Math.sin\<close>, \<open>Math.cos\<close>, \<open>Math.exp\<close>, \<open>Math.sqrt\<close>, \<open>Math.abs\<close> and \<open>Math.PI\<close> are
  \<^const>\<open>sin\<close>, \<^const>\<open>cos\<close>, \<^const>\<open>exp\<close>, \<^const>\<open>sqrt\<close>, \<^const>\<open>abs\<close> and \<^const>\<open>pi\<close>. Rounding
  of doubles and of \<open>Float32Array\<close> cells is outside this model.
\<close>

section \<open>Scene objects\<close>

text \<open>
  The part of a three.js \<open>Object3D\<close> that the frame callbacks write: the position and
  the rotation about the y axis. A \<open>Mesh\<close> adds its material; only a
  \<open>MeshStandardMaterial\<close> has an emissive intensity.
\<close>

datatype material = MeshStandardMaterial (emissiveIntensity: real) | OtherMaterial

record Object3D =
  position_x :: real
  position_y :: real
  position_z :: real
  rotation_y :: real

record Mesh = Object3D +
  material :: material

section \<open>FloatingOrb (FloatingOrbs component)\<close>

record FloatingOrb_props =
  position :: "real \<times> real \<times> real"
  color :: string
  size_orb :: real
  speed :: real

text \<open>
  The \<open>useFrame\<close> callback of \<open>FloatingOrb\<close>. \<open>elapsed\<close> is \<open>clock.getElapsedTime()\<close>,
  \<open>orbRef\<close> is \<open>orbRef.current\<close> (\<open>None\<close> while the mesh is not mounted). The callback
  returns the mesh as it has been written.
\<close>

definition FloatingOrb_useFrame :: "FloatingOrb_props \<Rightarrow> real \<Rightarrow> Mesh option \<Rightarrow> Mesh option" where
  "FloatingOrb_useFrame props elapsed orbRef =
     (case orbRef of
        None \<Rightarrow> None
      | Some orb \<Rightarrow>
          (let initialY = fst (snd (position props));
               time = elapsed * speed props;
               orb = orb\<lparr>position_y := initialY + sin time * 0.3\<rparr>;
               orb = orb\<lparr>position_x := fst (position props) + cos (time * 0.7) * 0.2\<rparr>;
               orb = orb\<lparr>position_z := snd (snd (position props)) + sin (time * 0.5) * 0.15\<rparr>;
               glowIntensity = 0.3 + sin (time * 2) * 0.1
           in Some (case material orb of
                      MeshStandardMaterial _ \<Rightarrow> orb\<lparr>material := MeshStandardMaterial glowIntensity\<rparr>
                    | OtherMaterial \<Rightarrow> orb)))"

text \<open>The mesh as the JSX of \<open>FloatingOrb\<close> mounts it, before the first frame.\<close>

definition FloatingOrb_mesh :: "FloatingOrb_props \<Rightarrow> Mesh" where
  "FloatingOrb_mesh props =
     \<lparr>position_x = fst (position props), position_y = fst (snd (position props)),
      position_z = snd (snd (position props)), rotation_y = 0,
      material = MeshStandardMaterial 0.3\<rparr>"

section \<open>FloatingIsland\<close>

text \<open>The \<open>useFrame\<close> callback of \<open>FloatingIsland\<close>, on \<open>islandRef.current\<close>.\<close>

definition FloatingIsland_useFrame :: "real \<Rightarrow> Object3D option \<Rightarrow> Object3D option" where
  "FloatingIsland_useFrame elapsed islandRef =
     (case islandRef of
        None \<Rightarrow> None
      | Some island \<Rightarrow>
          (let time = elapsed;
               island = island\<lparr>position_y := sin (time * 0.3) * 0.1\<rparr>;
               island = island\<lparr>rotation_y := time * 0.01\<rparr>
           in Some island))"

section \<open>Procedural meshes: islandGeometry and gardenGeometry\<close>

text \<open>
  Both generators walk the position array of a three.js geometry, three cells a vertex, and
  rewrite the y cell. The base arrays come from three.js (\<open>CylinderGeometry(20, 16, 3, 32, 1)\<close>
  for the island, \<open>PlaneGeometry(30, 30, 32, 32)\<close> for the garden) and are a parameter here.
  The source writes the amplitudes of the sine and cosine terms as literals; the loops below
  take them as arguments so that other amplitudes can be stated, and \<open>islandGeometry\<close> and
  \<open>gardenGeometry\<close> are the loops at the literals of the source. A position array has
  three cells for every vertex, so its length is a multiple of three and every read of the
  loops is within the array. The recomputation of the normals is not part of the position
  array and is left out.
\<close>

text \<open>\<open>islandGeometry\<close>: \<open>vertices[i + 1] = y + noise\<close>.\<close>

definition island_body :: "real \<Rightarrow> real \<Rightarrow> nat \<Rightarrow> real list \<Rightarrow> real list" where
  "island_body a1 a2 i vertices =
     (let x = vertices ! i;
          y = vertices ! (i + 1);
          z = vertices ! (i + 2);
          distance = sqrt (x * x + z * z);
          noise = sin (distance * 0.2) * a1 + cos (x * 0.1) * a2
      in vertices[i + 1 := y + noise])"

function island_loop :: "real \<Rightarrow> real \<Rightarrow> nat \<Rightarrow> real list \<Rightarrow> real list" where
  "island_loop a1 a2 i vertices =
     (if i < length vertices then island_loop a1 a2 (i + 3) (island_body a1 a2 i vertices)
      else vertices)"
  by pat_completeness auto
termination
  by (relation "measure (\<lambda>(a1, a2, i, vertices). length vertices - i)")
     (auto simp: island_body_def Let_def)

definition island_displace :: "real \<Rightarrow> real \<Rightarrow> real list \<Rightarrow> real list" where
  "island_displace a1 a2 vertices = island_loop a1 a2 0 vertices"

definition islandGeometry :: "real list \<Rightarrow> real list" where
  "islandGeometry vertices = island_displace 0.3 0.2 vertices"

text \<open>\<open>gardenGeometry\<close> of \<open>ZenGarden\<close>: \<open>vertices[i + 1] = elevation\<close>.\<close>

definition garden_body :: "real \<Rightarrow> real \<Rightarrow> real \<Rightarrow> real \<Rightarrow> nat \<Rightarrow> real list \<Rightarrow> real list" where
  "garden_body a1 a2 a3 a4 i vertices =
     (let x = vertices ! i;
          z = vertices ! (i + 2);
          elevation = sin (x * 0.1) * a1 + cos (z * 0.15) * a2
                    + sin (x * 0.3 + z * 0.2) * a3 + cos (x * 0.05 + z * 0.08) * a4
      in vertices[i + 1 := elevation])"

function garden_loop :: "real \<Rightarrow> real \<Rightarrow> real \<Rightarrow> real \<Rightarrow> nat \<Rightarrow> real list \<Rightarrow> real list" where
  "garden_loop a1 a2 a3 a4 i vertices =
     (if i < length vertices then garden_loop a1 a2 a3 a4 (i + 3) (garden_body a1 a2 a3 a4 i vertices)
      else vertices)"
  by pat_completeness auto
termination
  by (relation "measure (\<lambda>(a1, a2, a3, a4, i, vertices). length vertices - i)")
     (auto simp: garden_body_def Let_def)

definition garden_displace :: "real \<Rightarrow> real \<Rightarrow> real \<Rightarrow> real \<Rightarrow> real list \<Rightarrow> real list" where
  "garden_displace a1 a2 a3 a4 vertices = garden_loop a1 a2 a3 a4 0 vertices"

definition gardenGeometry :: "real list \<Rightarrow> real list" where
  "gardenGeometry vertices = garden_displace 0.3 0.2 0.1 0.15 vertices"

text \<open>
  The position array three.js builds for \<open>PlaneGeometry(width, height, widthSegments,
  heightSegments)\<close>: rows from the top, \<open>vertices.push(x, -y, 0)\<close>.
\<close>

definition PlaneGeometry :: "real \<Rightarrow> real \<Rightarrow> nat \<Rightarrow> nat \<Rightarrow> real list" where
  "PlaneGeometry width height widthSegments heightSegments =
     (let width_half = width / 2; height_half = height / 2;
          gridX = widthSegments; gridY = heightSegments;
          gridX1 = gridX + 1; gridY1 = gridY + 1;
          segment_width = width / real gridX; segment_height = height / real gridY
      in concat (map (\<lambda>iy. let y = real iy * segment_height - height_half
                             in concat (map (\<lambda>ix. let x = real ix * segment_width - width_half
                                                    in [x, - y, 0]) [0..<gridX1]))
                     [0..<gridY1]))"


section \<open>The random source\<close>

text \<open>
  \<open>Math.random()\<close> is the host's. Its successive results are a sequence \<open>rnd\<close>, and the
  code is given the index \<open>k\<close> of the next draw and returns the index it has reached: the
  order of the calls in the source is the order of the indices. A source is \<open>unit_draws\<close>
  when every result lies in \<open>[0, 1)\<close>, as \<open>Math.random\<close> promises.
\<close>

type_synonym random_source = "nat \<Rightarrow> real"

definition Math_random :: "random_source \<Rightarrow> nat \<Rightarrow> real \<times> nat" where
  "Math_random rnd k = (rnd k, Suc k)"

definition unit_draws :: "random_source \<Rightarrow> bool" where
  "unit_draws rnd = (\<forall>k. 0 \<le> rnd k \<and> rnd k < 1)"

section \<open>AtmosphericEffects: the dust field\<close>

text \<open>
  The two \<open>Float32Array\<close> attributes of the dust geometry, \<open>position\<close> and \<open>velocity\<close>,
  three cells a particle.
\<close>

record Points =
  position_array :: "real list"
  velocity_array :: "real list"

text \<open>
  \<open>dustGeometry\<close>: both arrays are created with \<open>200 * 3\<close> zero cells and the loop fills
  particle \<open>i\<close> with six draws, in the order of the source.
\<close>

definition dustGeometry_body :: "random_source \<Rightarrow> nat \<Rightarrow> real list \<times> real list \<times> nat \<Rightarrow> real list \<times> real list \<times> nat" where
  "dustGeometry_body rnd i s =
     (case s of (positions, velocities, k) \<Rightarrow>
        (let i3 = i * 3;
             (r, k) = Math_random rnd k; positions = positions[i3 := (r - 0.5) * 80];
             (r, k) = Math_random rnd k; positions = positions[i3 + 1 := r * 40 + 5];
             (r, k) = Math_random rnd k; positions = positions[i3 + 2 := (r - 0.5) * 80];
             (r, k) = Math_random rnd k; velocities = velocities[i3 := (r - 0.5) * 0.02];
             (r, k) = Math_random rnd k; velocities = velocities[i3 + 1 := r * 0.01 + 0.005];
             (r, k) = Math_random rnd k; velocities = velocities[i3 + 2 := (r - 0.5) * 0.02]
         in (positions, velocities, k)))"

function dustGeometry_loop :: "random_source \<Rightarrow> nat \<Rightarrow> real list \<times> real list \<times> nat \<Rightarrow> real list \<times> real list \<times> nat" where
  "dustGeometry_loop rnd i s =
     (if i < 200 then dustGeometry_loop rnd (Suc i) (dustGeometry_body rnd i s) else s)"
  by pat_completeness auto
termination
  by (relation "measure (\<lambda>(rnd, i, s). 200 - i)") auto

definition dustGeometry :: "random_source \<Rightarrow> nat \<Rightarrow> Points \<times> nat" where
  "dustGeometry rnd k =
     (case dustGeometry_loop rnd 0 (replicate (200 * 3) 0, replicate (200 * 3) 0, k) of
        (positions, velocities, k) \<Rightarrow> (\<lparr>position_array = positions, velocity_array = velocities\<rparr>, k))"

text \<open>
  The body of the loop of the \<open>useFrame\<close> callback for the particle at cells \<open>i\<close>,
  \<open>i + 1\<close>, \<open>i + 2\<close>: the velocity step, then the three resets. A write to a typed array
  beyond its length is dropped, as \<open>list_update\<close> does.
\<close>

definition dust_body :: "random_source \<Rightarrow> real list \<Rightarrow> nat \<Rightarrow> real list \<times> nat \<Rightarrow> real list \<times> nat" where
  "dust_body rnd velocities i s =
     (case s of (positions, k) \<Rightarrow>
        (let positions = positions[i := positions ! i + velocities ! i];
             positions = positions[i + 1 := positions ! (i + 1) + velocities ! (i + 1)];
             positions = positions[i + 2 := positions ! (i + 2) + velocities ! (i + 2)];
             positions = (if positions ! (i + 1) > 45 then positions[i + 1 := 5] else positions);
             (positions, k) =
               (if \<bar>positions ! i\<bar> > 40
                then (let (r, k) = Math_random rnd k in (positions[i := (r - 0.5) * 80], k))
                else (positions, k));
             (positions, k) =
               (if \<bar>positions ! (i + 2)\<bar> > 40
                then (let (r, k) = Math_random rnd k in (positions[i + 2 := (r - 0.5) * 80], k))
                else (positions, k))
         in (positions, k)))"

text \<open>\<open>for (let i = 0; i < positions.length; i += 3)\<close>\<close>

function dust_loop :: "random_source \<Rightarrow> real list \<Rightarrow> nat \<Rightarrow> real list \<times> nat \<Rightarrow> real list \<times> nat" where
  "dust_loop rnd velocities i s =
     (if i < length (fst s) then dust_loop rnd velocities (i + 3) (dust_body rnd velocities i s)
      else s)"
  by pat_completeness auto
termination
  by (relation "measure (\<lambda>(rnd, velocities, i, s). length (fst s) - i)")
     (auto simp: dust_body_def Let_def Math_random_def split_def)

text \<open>
  The refs of the component (\<open>None\<close> while the object is not mounted) and the whole
  \<open>useFrame\<close> callback: the dust loop, then the rotation of the light rays by
  \<open>delta * 0.02\<close>. \<open>elapsed\<close> stands for the \<open>state\<close> argument, which the callback
  receives and does not read.
\<close>

record AtmosphericEffects_refs =
  dustRef :: "Points option"
  lightRaysRef :: "Object3D option"

definition AtmosphericEffects_useFrame ::
    "random_source \<Rightarrow> real \<Rightarrow> real \<Rightarrow> AtmosphericEffects_refs \<times> nat \<Rightarrow> AtmosphericEffects_refs \<times> nat" where
  "AtmosphericEffects_useFrame rnd elapsed delta s =
     (case s of (refs, k) \<Rightarrow>
        (let (refs, k) =
               (case dustRef refs of
                  None \<Rightarrow> (refs, k)
                | Some dust \<Rightarrow>
                    (let (positions, k) =
                           dust_loop rnd (velocity_array dust) 0 (position_array dust, k)
                     in (refs\<lparr>dustRef := Some (dust\<lparr>position_array := positions\<rparr>)\<rparr>, k)));
             refs =
               (case lightRaysRef refs of
                  None \<Rightarrow> refs
                | Some rays \<Rightarrow>
                    refs\<lparr>lightRaysRef := Some (rays\<lparr>rotation_y := rotation_y rays + delta * 0.02\<rparr>)\<rparr>)
         in (refs, k)))"

text \<open>
  The host calls the callback once for every rendered frame, with the elapsed time and
  the time since the previous frame.
\<close>

definition render_loop ::
    "random_source \<Rightarrow> (real \<times> real) list \<Rightarrow> AtmosphericEffects_refs \<times> nat \<Rightarrow> AtmosphericEffects_refs \<times> nat" where
  "render_loop rnd frames s =
     fold (\<lambda>(elapsed, delta). AtmosphericEffects_useFrame rnd elapsed delta) frames s"

text \<open>What is on screen: the cells of the mounted dust field.\<close>

definition dust_positions :: "AtmosphericEffects_refs \<Rightarrow> real list" where
  "dust_positions refs = (case dustRef refs of None \<Rightarrow> [] | Some dust \<Rightarrow> position_array dust)"

definition dust_velocities :: "AtmosphericEffects_refs \<Rightarrow> real list" where
  "dust_velocities refs = (case dustRef refs of None \<Rightarrow> [] | Some dust \<Rightarrow> velocity_array dust)"

definition lightRays_rotation :: "AtmosphericEffects_refs \<Rightarrow> real option" where
  "lightRays_rotation refs = map_option rotation_y (lightRaysRef refs)"

text \<open>
  The dust field is mounted with both arrays of one length, a multiple of three, as
  \<open>dustGeometry\<close> builds them; every read of the loop is then within the arrays.
\<close>

definition dust_mounted :: "AtmosphericEffects_refs \<Rightarrow> bool" where
  "dust_mounted refs =
     (case dustRef refs of
        None \<Rightarrow> False
      | Some dust \<Rightarrow>
          length (velocity_array dust) = length (position_array dust)
          \<and> length (position_array dust) mod 3 = 0)"

text \<open>
  \<open>lightRays\<close>: eight rays around the skylight, each made with three draws in the order of
  the source (the distance from the axis, the radius of the cone, the opacity).
\<close>

record LightRay =
  ray_coneRadius :: real
  ray_position :: "real \<times> real \<times> real"
  ray_rotation :: "real \<times> real \<times> real"
  ray_opacity :: real

definition lightRays_body :: "random_source \<Rightarrow> nat \<Rightarrow> LightRay list \<times> nat \<Rightarrow> LightRay list \<times> nat" where
  "lightRays_body rnd i s =
     (case s of (rays, k) \<Rightarrow>
        (let angle = (real i / 8) * pi * 2;
             (r, k) = Math_random rnd k; radius = 5 + r * 8;
             x = cos angle * radius;
             z = sin angle * radius;
             (r, k) = Math_random rnd k; coneRadius = 0.5 + r * 0.3;
             (r, k) = Math_random rnd k; opacity = 0.1 + r * 0.05
         in (rays @ [\<lparr>ray_coneRadius = coneRadius, ray_position = (x, 25, z),
                       ray_rotation = (0, angle, 0), ray_opacity = opacity\<rparr>], k)))"

function lightRays_loop :: "random_source \<Rightarrow> nat \<Rightarrow> LightRay list \<times> nat \<Rightarrow> LightRay list \<times> nat" where
  "lightRays_loop rnd i s =
     (if i < 8 then lightRays_loop rnd (Suc i) (lightRays_body rnd i s) else s)"
  by pat_completeness auto
termination
  by (relation "measure (\<lambda>(rnd, i, s). 8 - i)") auto

definition lightRays :: "random_source \<Rightarrow> nat \<Rightarrow> LightRay list \<times> nat" where
  "lightRays rnd k = lightRays_loop rnd 0 ([], k)"

text \<open>
  The refs once the component is mounted. The two \<open>useMemo\<close> hooks that draw run in the
  order of the source, \<open>dustGeometry\<close> and then \<open>lightRays\<close>; the rays are fixed children
  of the group \<open>lightRaysRef\<close> refers to, and the frames only turn the group.
\<close>

definition AtmosphericEffects_mount :: "random_source \<Rightarrow> nat \<Rightarrow> AtmosphericEffects_refs \<times> nat" where
  "AtmosphericEffects_mount rnd k =
     (let (dust, k) = dustGeometry rnd k;
          (rays, k) = lightRays rnd k
      in (\<lparr>dustRef = Some dust,
           lightRaysRef = Some \<lparr>position_x = 0, position_y = 0, position_z = 0, rotation_y = 0\<rparr>\<rparr>, k))"

text \<open>
  The number of x and z cells in \<open>[i, m)\<close> that the velocity step takes out of the band
  \<open>[-40, 40]\<close>: each of them is reset with one draw.
\<close>

definition side_resets :: "real list \<Rightarrow> real list \<Rightarrow> nat \<Rightarrow> nat \<Rightarrow> nat" where
  "side_resets positions velocities i m =
     length (filter (\<lambda>j. j mod 3 \<noteq> 1 \<and> \<bar>positions ! j + velocities ! j\<bar> > 40) [i..<m])"

section \<open>Synthetic audio buffers\<close>

text \<open>
  Every \<open>create...Sound\<close> function allocates a one-channel buffer of \<open>sampleRate * seconds\<close>
  zero samples and runs \<open>for (let i = 0; i < bufferSize; i++) data[i] = ...\<close>. The loop is
  \<open>fill_loop\<close>; what a voice computes for sample \<open>i\<close>, with the draws it makes, is its
  \<open>..._sample\<close> function. The sample rate is a natural number of Hertz.
\<close>

function fill_loop :: "(nat \<Rightarrow> nat \<Rightarrow> real \<times> nat) \<Rightarrow> nat \<Rightarrow> nat \<Rightarrow> real list \<times> nat \<Rightarrow> real list \<times> nat" where
  "fill_loop sample bufferSize i s =
     (if i < bufferSize
      then (case s of (data, k) \<Rightarrow>
              (let (v, k) = sample i k
               in fill_loop sample bufferSize (Suc i) (data[i := v], k)))
      else s)"
  by pat_completeness auto
termination
  by (relation "measure (\<lambda>(sample, bufferSize, i, s). bufferSize - i)") auto

definition createBuffer :: "nat \<Rightarrow> real list" where
  "createBuffer bufferSize = replicate bufferSize 0"

definition water_sample :: "random_source \<Rightarrow> nat \<Rightarrow> nat \<Rightarrow> real \<times> nat" where
  "water_sample rnd i k =
     (let (r, k) = Math_random rnd k; whiteNoise = r * 2 - 1;
          flowPattern = sin (real i * 0.001) * 0.3;
          (r, k) = Math_random rnd k; bubbleEffect = sin (real i * 0.01) * r * 0.2
      in ((whiteNoise * 0.5 + flowPattern + bubbleEffect) * 0.3, k))"

definition bird_sample :: "nat \<Rightarrow> random_source \<Rightarrow> nat \<Rightarrow> nat \<Rightarrow> real \<times> nat" where
  "bird_sample sampleRate rnd i k =
     (let sample = 0;
          (r, k) = Math_random rnd k
      in if r > 0.999
         then (let (r, k) = Math_random rnd k; freq = 800 + r * 1200;
                   decay = exp (- real i * 0.0001)
               in (sin (2 * pi * freq * real i / real sampleRate) * decay * 0.1, k))
         else (sample, k))"

definition breeze_sample :: "random_source \<Rightarrow> nat \<Rightarrow> nat \<Rightarrow> real \<times> nat" where
  "breeze_sample rnd i k =
     (let (r, k) = Math_random rnd k; windNoise = (r * 2 - 1) * 0.1;
          windPattern = sin (real i * 0.0001) * 0.05
      in (windNoise + windPattern, k))"

definition stream_sample :: "random_source \<Rightarrow> nat \<Rightarrow> nat \<Rightarrow> real \<times> nat" where
  "stream_sample rnd i k =
     (let (r, k) = Math_random rnd k; whiteNoise = r * 2 - 1;
          flowPattern1 = sin (real i * 0.001) * 0.3;
          flowPattern2 = cos (real i * 0.0015) * 0.2;
          (r, k) = Math_random rnd k; flowPattern3 = sin (real i * 0.002) * r * 0.1
      in ((whiteNoise * 0.4 + flowPattern1 + flowPattern2 + flowPattern3) * 0.3, k))"

definition bubble_sample :: "nat \<Rightarrow> random_source \<Rightarrow> nat \<Rightarrow> nat \<Rightarrow> real \<times> nat" where
  "bubble_sample sampleRate rnd i k =
     (let sample = 0;
          (r, k) = Math_random rnd k
      in if r > 0.9995
         then (let (r, k) = Math_random rnd k; freq = 200 + r * 400;
                   decay = exp (- real i * 0.0001)
               in (sin (2 * pi * freq * real i / real sampleRate) * decay * 0.05, k))
         else (sample, k))"

definition gentleFlow_sample :: "nat \<Rightarrow> nat \<Rightarrow> real \<times> nat" where
  "gentleFlow_sample i k =
     (let flow1 = sin (real i * 0.0001) * 0.1;
          flow2 = cos (real i * 0.00015) * 0.08;
          flow3 = sin (real i * 0.0002) * 0.06
      in (flow1 + flow2 + flow3, k))"


section \<open>AmbientSounds and StreamAudio\<close>

text \<open>
  The two components have the same shape. Their state is: the React state cells
  \<open>audioContext\<close> and \<open>isPlaying\<close>; the ref \<open>audioRefs.current\<close> (the gain node and three
  source nodes); and what the host keeps for them: the audio engine (sample rate, context
  state, the number of \<open>resume()\<close> calls, every \<open>AudioBufferSourceNode\<close> created so far
  and the log of the \<open>start()\<close> and \<open>stop()\<close> calls on them, a node being named by its index),
  the index of the next \<open>Math.random()\<close> draw, the \<open>click\<close>/\<open>touchstart\<close> listener that is
  registered, and the render whose effects are in place.

  A callback reads the state cells as the render that created it captured them: \<open>isPlaying\<close>
  inside \<open>startAmbientSounds\<close> is the constant of that render, and \<open>setIsPlaying\<close> changes
  the cell, not the constant. The captured values are the record \<open>render\<close>. Inside the
  \<open>try\<close> block \<open>start()\<close> is only called on a node just created and the context has a
  positive sample rate, so the host raises no error there and the \<open>catch\<close> branch is not
  entered; \<open>resume()\<close> is counted, its effect on the context being the host's decision.
  The filters between a source and the gain node are not modelled.
\<close>

datatype context_state = Suspended | Running | Closed

record AudioBufferSourceNode =
  buffer :: "real list"
  loop :: bool

datatype call = Start nat | Stop nat

type_synonym AudioContext = unit

record render =
  r_audioContext :: "AudioContext option"
  r_isPlaying :: bool

record AudioComponent =
  audioContext :: "AudioContext option"
  isPlaying :: bool
  gainNode :: "real option"
  handler :: "render option"
  rendered :: "render option"
  sampleRate :: nat
  context_state :: context_state
  resume_calls :: nat
  sources :: "AudioBufferSourceNode list"
  calls :: "call list"
  draws :: nat

record AmbientSounds = AudioComponent +
  waterSource :: "nat option"
  birdsSource :: "nat option"
  breezeSource :: "nat option"

record StreamAudio = AudioComponent +
  streamSource :: "nat option"
  bubblesSource :: "nat option"
  gentleFlowSource :: "nat option"

definition createBufferSource :: "real list \<Rightarrow> 'a AudioComponent_scheme \<Rightarrow> nat \<times> 'a AudioComponent_scheme" where
  "createBufferSource data st =
     (length (sources st), st\<lparr>sources := sources st @ [\<lparr>buffer = data, loop = True\<rparr>]\<rparr>)"

definition source_start :: "nat \<Rightarrow> 'a AudioComponent_scheme \<Rightarrow> 'a AudioComponent_scheme" where
  "source_start n st = st\<lparr>calls := calls st @ [Start n]\<rparr>"

definition source_stop :: "nat \<Rightarrow> 'a AudioComponent_scheme \<Rightarrow> 'a AudioComponent_scheme" where
  "source_stop n st = st\<lparr>calls := calls st @ [Stop n]\<rparr>"

definition resume :: "'a AudioComponent_scheme \<Rightarrow> 'a AudioComponent_scheme" where
  "resume st = st\<lparr>resume_calls := Suc (resume_calls st)\<rparr>"

definition initAudio :: "real \<Rightarrow> render \<Rightarrow> 'a AudioComponent_scheme \<Rightarrow> 'a AudioComponent_scheme" where
  "initAudio volume c st =
     (if r_audioContext c = None
      then st\<lparr>audioContext := Some (), gainNode := Some volume\<rparr>
      else st)"

definition closeAudio :: "render \<Rightarrow> 'a AudioComponent_scheme \<Rightarrow> 'a AudioComponent_scheme" where
  "closeAudio c st = (if r_audioContext c \<noteq> None then st\<lparr>context_state := Closed\<rparr> else st)"

definition createSound ::
    "(nat \<Rightarrow> nat \<Rightarrow> real \<times> nat) \<Rightarrow> nat \<Rightarrow> 'a AudioComponent_scheme \<Rightarrow> nat \<times> 'a AudioComponent_scheme" where
  "createSound sample seconds st =
     (let bufferSize = sampleRate st * seconds;
          (data, k) = fill_loop sample bufferSize 0 (createBuffer bufferSize, draws st)
      in createBufferSource data (st\<lparr>draws := k\<rparr>))"

definition createWaterSound :: "random_source \<Rightarrow> 'a AudioComponent_scheme \<Rightarrow> nat \<times> 'a AudioComponent_scheme" where
  "createWaterSound rnd st = createSound (water_sample rnd) 4 st"

definition createBirdSound :: "random_source \<Rightarrow> 'a AudioComponent_scheme \<Rightarrow> nat \<times> 'a AudioComponent_scheme" where
  "createBirdSound rnd st = createSound (bird_sample (sampleRate st) rnd) 6 st"

definition createBreezeSound :: "random_source \<Rightarrow> 'a AudioComponent_scheme \<Rightarrow> nat \<times> 'a AudioComponent_scheme" where
  "createBreezeSound rnd st = createSound (breeze_sample rnd) 8 st"

definition createStreamSound :: "random_source \<Rightarrow> 'a AudioComponent_scheme \<Rightarrow> nat \<times> 'a AudioComponent_scheme" where
  "createStreamSound rnd st = createSound (stream_sample rnd) 8 st"

definition createBubbleSound :: "random_source \<Rightarrow> 'a AudioComponent_scheme \<Rightarrow> nat \<times> 'a AudioComponent_scheme" where
  "createBubbleSound rnd st = createSound (bubble_sample (sampleRate st) rnd) 6 st"

definition createGentleFlowSound :: "'a AudioComponent_scheme \<Rightarrow> nat \<times> 'a AudioComponent_scheme" where
  "createGentleFlowSound st = createSound gentleFlow_sample 10 st"

definition startAmbientSounds :: "random_source \<Rightarrow> render \<Rightarrow> AmbientSounds \<Rightarrow> AmbientSounds" where
  "startAmbientSounds rnd c st =
     (if r_audioContext c = None \<or> r_isPlaying c then st
      else
        (let st = (if context_state st = Suspended then resume st else st);
             (water, st) = createWaterSound rnd st; st = st\<lparr>waterSource := Some water\<rparr>;
             (birds, st) = createBirdSound rnd st; st = st\<lparr>birdsSource := Some birds\<rparr>;
             (breeze, st) = createBreezeSound rnd st; st = st\<lparr>breezeSource := Some breeze\<rparr>;
             st = source_start water st;
             st = source_start birds st;
             st = source_start breeze st
         in st\<lparr>isPlaying := True\<rparr>))"

definition stopAmbientSounds :: "AmbientSounds \<Rightarrow> AmbientSounds" where
  "stopAmbientSounds st =
     (let st = (case waterSource st of Some n \<Rightarrow> source_stop n st | None \<Rightarrow> st);
          st = (case birdsSource st of Some n \<Rightarrow> source_stop n st | None \<Rightarrow> st);
          st = (case breezeSource st of Some n \<Rightarrow> source_stop n st | None \<Rightarrow> st)
      in st\<lparr>isPlaying := False\<rparr>)"

definition AmbientSounds_handleInteraction :: "random_source \<Rightarrow> render \<Rightarrow> AmbientSounds \<Rightarrow> AmbientSounds" where
  "AmbientSounds_handleInteraction rnd c st =
     (let st = startAmbientSounds rnd c st in st\<lparr>handler := None\<rparr>)"

definition AmbientSounds_effect :: "random_source \<Rightarrow> render \<Rightarrow> AmbientSounds \<Rightarrow> AmbientSounds" where
  "AmbientSounds_effect rnd c st =
     (let st = startAmbientSounds rnd c st in st\<lparr>handler := Some c\<rparr>)"

definition AmbientSounds_cleanup :: "AmbientSounds \<Rightarrow> AmbientSounds" where
  "AmbientSounds_cleanup st = (let st = st\<lparr>handler := None\<rparr> in stopAmbientSounds st)"

definition startStreamAudio :: "random_source \<Rightarrow> render \<Rightarrow> StreamAudio \<Rightarrow> StreamAudio" where
  "startStreamAudio rnd c st =
     (if r_audioContext c = None \<or> r_isPlaying c then st
      else
        (let st = (if context_state st = Suspended then resume st else st);
             (stream, st) = createStreamSound rnd st; st = st\<lparr>streamSource := Some stream\<rparr>;
             (bubbles, st) = createBubbleSound rnd st; st = st\<lparr>bubblesSource := Some bubbles\<rparr>;
             (gentleFlow, st) = createGentleFlowSound st; st = st\<lparr>gentleFlowSource := Some gentleFlow\<rparr>;
             st = source_start stream st;
             st = source_start bubbles st;
             st = source_start gentleFlow st
         in st\<lparr>isPlaying := True\<rparr>))"

definition stopStreamAudio :: "StreamAudio \<Rightarrow> StreamAudio" where
  "stopStreamAudio st =
     (let st = (case streamSource st of Some n \<Rightarrow> source_stop n st | None \<Rightarrow> st);
          st = (case bubblesSource st of Some n \<Rightarrow> source_stop n st | None \<Rightarrow> st);
          st = (case gentleFlowSource st of Some n \<Rightarrow> source_stop n st | None \<Rightarrow> st)
      in st\<lparr>isPlaying := False\<rparr>)"

definition StreamAudio_handleInteraction :: "random_source \<Rightarrow> render \<Rightarrow> StreamAudio \<Rightarrow> StreamAudio" where
  "StreamAudio_handleInteraction rnd c st =
     (let st = startStreamAudio rnd c st in st\<lparr>handler := None\<rparr>)"

definition StreamAudio_effect :: "random_source \<Rightarrow> render \<Rightarrow> StreamAudio \<Rightarrow> StreamAudio" where
  "StreamAudio_effect rnd c st =
     (let st = startStreamAudio rnd c st in st\<lparr>handler := Some c\<rparr>)"

definition StreamAudio_cleanup :: "StreamAudio \<Rightarrow> StreamAudio" where
  "StreamAudio_cleanup st = (let st = st\<lparr>handler := None\<rparr> in stopStreamAudio st)"

text \<open>
  The host's (React's) rules for the two effects of a component. A render captures the
  state cells. At mount both effect bodies run. When a state cell differs from what the
  last render captured, the component renders again; the callback \<open>startAmbientSounds\<close>
  depends on both cells, so the second effect is always re-run (its cleanup, then its
  body with the new render's callbacks), and the first one when \<open>audioContext\<close> changed;
  cleanups run before bodies. At unmount both cleanups run. A click or touch runs the
  registered listener.
\<close>

definition current_render :: "'a AudioComponent_scheme \<Rightarrow> render" where
  "current_render st = \<lparr>r_audioContext = audioContext st, r_isPlaying = isPlaying st\<rparr>"

definition AmbientSounds_mount :: "random_source \<Rightarrow> AmbientSounds \<Rightarrow> AmbientSounds" where
  "AmbientSounds_mount rnd st =
     (let c = current_render st;
          st = initAudio 0.3 c st;
          st = AmbientSounds_effect rnd c st
      in st\<lparr>rendered := Some c\<rparr>)"

definition AmbientSounds_rerender :: "random_source \<Rightarrow> AmbientSounds \<Rightarrow> AmbientSounds" where
  "AmbientSounds_rerender rnd st =
     (case rendered st of
        None \<Rightarrow> st
      | Some c \<Rightarrow>
          (let c' = current_render st
           in if c' = c then st
              else
                (let st = (if r_audioContext c' \<noteq> r_audioContext c then closeAudio c st else st);
                     st = AmbientSounds_cleanup st;
                     st = (if r_audioContext c' \<noteq> r_audioContext c then initAudio 0.3 c' st else st);
                     st = AmbientSounds_effect rnd c' st
                 in st\<lparr>rendered := Some c'\<rparr>)))"

definition AmbientSounds_unmount :: "AmbientSounds \<Rightarrow> AmbientSounds" where
  "AmbientSounds_unmount st =
     (case rendered st of
        None \<Rightarrow> st
      | Some c \<Rightarrow>
          (let st = closeAudio c st;
               st = AmbientSounds_cleanup st
           in st\<lparr>rendered := None\<rparr>))"

definition AmbientSounds_click :: "random_source \<Rightarrow> AmbientSounds \<Rightarrow> AmbientSounds" where
  "AmbientSounds_click rnd st =
     (case handler st of None \<Rightarrow> st | Some c \<Rightarrow> AmbientSounds_handleInteraction rnd c st)"

definition AmbientSounds_initial :: "nat \<Rightarrow> context_state \<Rightarrow> AmbientSounds" where
  "AmbientSounds_initial sr cs =
     \<lparr>audioContext = None, isPlaying = False, gainNode = None, handler = None, rendered = None,
      sampleRate = sr, context_state = cs, resume_calls = 0, sources = [], calls = [], draws = 0,
      waterSource = None, birdsSource = None, breezeSource = None\<rparr>"

text \<open>The buffer of the node a \<open>create...Sound\<close> call returns.\<close>

definition created_buffer :: "nat \<times> 'a AudioComponent_scheme \<Rightarrow> real list" where
  "created_buffer r = buffer (sources (snd r) ! fst r)"

text \<open>\<open>StreamAudio\<close> has the same two effects, with volume 0.4.\<close>

definition StreamAudio_mount :: "random_source \<Rightarrow> StreamAudio \<Rightarrow> StreamAudio" where
  "StreamAudio_mount rnd st =
     (let c = current_render st;
          st = initAudio 0.4 c st;
          st = StreamAudio_effect rnd c st
      in st\<lparr>rendered := Some c\<rparr>)"

definition StreamAudio_rerender :: "random_source \<Rightarrow> StreamAudio \<Rightarrow> StreamAudio" where
  "StreamAudio_rerender rnd st =
     (case rendered st of
        None \<Rightarrow> st
      | Some c \<Rightarrow>
          (let c' = current_render st
           in if c' = c then st
              else
                (let st = (if r_audioContext c' \<noteq> r_audioContext c then closeAudio c st else st);
                     st = StreamAudio_cleanup st;
                     st = (if r_audioContext c' \<noteq> r_audioContext c then initAudio 0.4 c' st else st);
                     st = StreamAudio_effect rnd c' st
                 in st\<lparr>rendered := Some c'\<rparr>)))"

definition StreamAudio_unmount :: "StreamAudio \<Rightarrow> StreamAudio" where
  "StreamAudio_unmount st =
     (case rendered st of
        None \<Rightarrow> st
      | Some c \<Rightarrow>
          (let st = closeAudio c st;
               st = StreamAudio_cleanup st
           in st\<lparr>rendered := None\<rparr>))"

definition StreamAudio_click :: "random_source \<Rightarrow> StreamAudio \<Rightarrow> StreamAudio" where
  "StreamAudio_click rnd st =
     (case handler st of None \<Rightarrow> st | Some c \<Rightarrow> StreamAudio_handleInteraction rnd c st)"

definition StreamAudio_initial :: "nat \<Rightarrow> context_state \<Rightarrow> StreamAudio" where
  "StreamAudio_initial sr cs =
     \<lparr>audioContext = None, isPlaying = False, gainNode = None, handler = None, rendered = None,
      sampleRate = sr, context_state = cs, resume_calls = 0, sources = [], calls = [], draws = 0,
      streamSource = None, bubblesSource = None, gentleFlowSource = None\<rparr>"

section \<open>Properties of the frame callbacks\<close>

lemma abs_sin_scaled: "0 \<le> a \<Longrightarrow> \<bar>sin x * a\<bar> \<le> (a::real)"
  using abs_sin_le_one [of x] by (simp add: abs_mult mult_left_le_one_le)

lemma abs_cos_scaled: "0 \<le> a \<Longrightarrow> \<bar>cos x * a\<bar> \<le> (a::real)"
  using abs_cos_le_one [of x] by (simp add: abs_mult mult_left_le_one_le)

text \<open>
  Claim C5. At every time the position a \<open>FloatingOrb\<close> is given stays within its
  amplitudes of the configured position (0.3 in y, 0.2 in x, 0.15 in z), and the height
  the \<open>FloatingIsland\<close> group is given stays within 0.1 of zero.
\<close>

theorem sinusoidal_offsets_bounded:
  "(\<exists>orb'. FloatingOrb_useFrame props t (Some orb) = Some orb'
       \<and> \<bar>position_y orb' - fst (snd (position props))\<bar> \<le> 0.3
       \<and> \<bar>position_x orb' - fst (position props)\<bar> \<le> 0.2
       \<and> \<bar>position_z orb' - snd (snd (position props))\<bar> \<le> 0.15)
   \<and> (\<exists>island'. FloatingIsland_useFrame t (Some island) = Some island'
       \<and> \<bar>position_y island'\<bar> \<le> 0.1)"
proof -
  have y: "\<bar>sin (t * speed props) * 0.3\<bar> \<le> (0.3::real)"
    by (rule abs_sin_scaled) simp
  have x: "\<bar>cos (t * speed props * 0.7) * 0.2\<bar> \<le> (0.2::real)"
    by (rule abs_cos_scaled) simp
  have z: "\<bar>sin (t * speed props * 0.5) * 0.15\<bar> \<le> (0.15::real)"
    by (rule abs_sin_scaled) simp
  have i: "\<bar>sin (t * 0.3) * 0.1\<bar> \<le> (0.1::real)"
    by (rule abs_sin_scaled) simp
  show ?thesis
    using x y z i
    by (cases "material orb") (simp_all add: FloatingOrb_useFrame_def FloatingIsland_useFrame_def Let_def)
qed

section \<open>Properties of the dust field\<close>

declare dust_loop.simps [simp del]
declare dustGeometry_loop.simps [simp del]
declare lightRays_loop.simps [simp del]

lemma dust_body_other:
  "m \<noteq> i \<Longrightarrow> m \<noteq> i + 1 \<Longrightarrow> m \<noteq> i + 2 \<Longrightarrow> fst (dust_body rnd vs i (ps, k)) ! m = ps ! m"
  by (simp add: dust_body_def Let_def Math_random_def split_def)

lemma dust_body_height:
  "i + 1 < length ps \<Longrightarrow>
   fst (dust_body rnd vs i (ps, k)) ! (i + 1) =
     (if ps ! (i + 1) + vs ! (i + 1) > 45 then 5 else ps ! (i + 1) + vs ! (i + 1))"
  by (simp add: dust_body_def Let_def Math_random_def split_def)

lemma dust_body_x:
  "i < length ps \<Longrightarrow>
   fst (dust_body rnd vs i (ps, k)) ! i =
     (if \<bar>ps ! i + vs ! i\<bar> > 40 then (rnd k - 0.5) * 80 else ps ! i + vs ! i)"
  by (simp add: dust_body_def Let_def Math_random_def split_def)

lemma dust_body_z:
  "i + 2 < length ps \<Longrightarrow>
   fst (dust_body rnd vs i (ps, k)) ! (i + 2) =
     (if \<bar>ps ! (i + 2) + vs ! (i + 2)\<bar> > 40
      then (rnd (if \<bar>ps ! i + vs ! i\<bar> > 40 then Suc k else k) - 0.5) * 80
      else ps ! (i + 2) + vs ! (i + 2))"
  by (simp add: dust_body_def Let_def Math_random_def split_def)

lemma dust_body_draws:
  "i + 2 < length ps \<Longrightarrow>
   snd (dust_body rnd vs i (ps, k)) =
     k + (if \<bar>ps ! i + vs ! i\<bar> > 40 then 1 else 0)
       + (if \<bar>ps ! (i + 2) + vs ! (i + 2)\<bar> > 40 then 1 else 0)"
  by (simp add: dust_body_def Let_def Math_random_def split_def)

lemma length_dust_body [simp]: "length (fst (dust_body rnd vs i s)) = length (fst s)"
  by (simp add: dust_body_def Let_def Math_random_def split_def)

lemma length_dust_loop [simp]: "length (fst (dust_loop rnd vs i s)) = length (fst s)"
  by (induction rnd vs i s rule: dust_loop.induct) (simp add: dust_loop.simps)

lemma dust_loop_before:
  "m < i \<Longrightarrow> fst (dust_loop rnd vs i s) ! m = fst s ! m"
proof (induction rnd vs i s rule: dust_loop.induct)
  case (1 rnd vs i s)
  show ?case
  proof (cases "i < length (fst s)")
    case True
    have "fst (dust_loop rnd vs i s) ! m = fst (dust_body rnd vs i s) ! m"
      using True 1 by (simp add: dust_loop.simps [of rnd vs i s])
    also have "\<dots> = fst s ! m"
      using 1(2) dust_body_other [of m i rnd vs "fst s" "snd s"] by simp
    finally show ?thesis .
  next
    case False
    then show ?thesis by (simp add: dust_loop.simps [of rnd vs i s])
  qed
qed

lemma dust_loop_height:
  "i \<le> m \<Longrightarrow> (m - i) mod 3 = 1 \<Longrightarrow> m < length (fst s) \<Longrightarrow>
   fst (dust_loop rnd vs i s) ! m =
     (if fst s ! m + vs ! m > 45 then 5 else fst s ! m + vs ! m)"
proof (induction rnd vs i s rule: dust_loop.induct)
  case (1 rnd vs i s)
  from 1(2,4) have lt: "i < length (fst s)" by simp
  have unfold: "dust_loop rnd vs i s = dust_loop rnd vs (i + 3) (dust_body rnd vs i s)"
    using lt by (simp add: dust_loop.simps [of rnd vs i s])
  show ?case
  proof (cases "m = i + 1")
    case True
    have "fst (dust_loop rnd vs i s) ! m = fst (dust_body rnd vs i s) ! m"
      unfolding unfold using True by (simp add: dust_loop_before)
    also have "\<dots> = (if fst s ! m + vs ! m > 45 then 5 else fst s ! m + vs ! m)"
      using True 1(4) dust_body_height [of i "fst s" rnd vs "snd s"] by simp
    finally show ?thesis .
  next
    case False
    have ge: "i + 3 \<le> m"
    proof (rule ccontr)
      assume "\<not> i + 3 \<le> m"
      with 1(2) have "m - i < 3" by simp
      with 1(3) have "m - i = 1" by simp
      with 1(2) False show False by simp
    qed
    have md: "(m - (i + 3)) mod 3 = 1"
      using ge 1(3) le_mod_geq [of 3 "m - i"] by simp
    have same: "fst (dust_body rnd vs i s) ! m = fst s ! m"
      using ge dust_body_other [of m i rnd vs "fst s" "snd s"] by simp
    show ?thesis
      unfolding unfold using "1.IH" [OF lt ge md] 1(4) same by simp
  qed
qed


lemma next_particle:
  fixes i m c :: nat
  assumes "i \<le> m" and "(m - i) mod 3 = c" and "m \<noteq> i + c"
  shows "i + 3 \<le> m \<and> (m - (i + 3)) mod 3 = c"
proof -
  have ge: "i + 3 \<le> m"
  proof (rule ccontr)
    assume "\<not> i + 3 \<le> m"
    with assms(1) have "m - i < 3" by simp
    with assms(2) have "m - i = c" by simp
    with assms(1,3) show False by simp
  qed
  moreover have "(m - (i + 3)) mod 3 = c"
    using ge assms(2) le_mod_geq [of 3 "m - i"] by simp
  ultimately show ?thesis by simp
qed

lemma dust_loop_x:
  "i \<le> m \<Longrightarrow> (m - i) mod 3 = 0 \<Longrightarrow> m < length (fst s) \<Longrightarrow>
   \<exists>k'. fst (dust_loop rnd vs i s) ! m =
     (if \<bar>fst s ! m + vs ! m\<bar> > 40 then (rnd k' - 0.5) * 80 else fst s ! m + vs ! m)"
proof (induction rnd vs i s rule: dust_loop.induct)
  case (1 rnd vs i s)
  from 1(2,4) have lt: "i < length (fst s)" by simp
  have unfold: "dust_loop rnd vs i s = dust_loop rnd vs (i + 3) (dust_body rnd vs i s)"
    using lt by (simp add: dust_loop.simps [of rnd vs i s])
  show ?case
  proof (cases "m = i")
    case True
    have "fst (dust_loop rnd vs i s) ! m = fst (dust_body rnd vs i s) ! m"
      unfolding unfold using True by (simp add: dust_loop_before)
    also have "\<dots> = (if \<bar>fst s ! m + vs ! m\<bar> > 40 then (rnd (snd s) - 0.5) * 80
                        else fst s ! m + vs ! m)"
      using True 1(4) dust_body_x [of i "fst s" rnd vs "snd s"] by simp
    finally show ?thesis by blast
  next
    case False
    with 1(2,3) next_particle [of i m 0]
    have ge: "i + 3 \<le> m" and md: "(m - (i + 3)) mod 3 = 0" by simp_all
    have same: "fst (dust_body rnd vs i s) ! m = fst s ! m"
      using ge dust_body_other [of m i rnd vs "fst s" "snd s"] by simp
    from "1.IH" [OF lt ge md] 1(4) show ?thesis
      unfolding unfold same by simp
  qed
qed

lemma dust_loop_z:
  "i \<le> m \<Longrightarrow> (m - i) mod 3 = 2 \<Longrightarrow> m < length (fst s) \<Longrightarrow>
   \<exists>k'. fst (dust_loop rnd vs i s) ! m =
     (if \<bar>fst s ! m + vs ! m\<bar> > 40 then (rnd k' - 0.5) * 80 else fst s ! m + vs ! m)"
proof (induction rnd vs i s rule: dust_loop.induct)
  case (1 rnd vs i s)
  from 1(2,4) have lt: "i < length (fst s)" by simp
  have unfold: "dust_loop rnd vs i s = dust_loop rnd vs (i + 3) (dust_body rnd vs i s)"
    using lt by (simp add: dust_loop.simps [of rnd vs i s])
  show ?case
  proof (cases "m = i + 2")
    case True
    have "fst (dust_loop rnd vs i s) ! m = fst (dust_body rnd vs i s) ! m"
      unfolding unfold using True by (simp add: dust_loop_before)
    also have "\<dots> = (if \<bar>fst s ! m + vs ! m\<bar> > 40
                        then (rnd (if \<bar>fst s ! i + vs ! i\<bar> > 40 then Suc (snd s) else snd s) - 0.5) * 80
                        else fst s ! m + vs ! m)"
      using True 1(4) dust_body_z [of i "fst s" rnd vs "snd s"] by simp
    finally show ?thesis by blast
  next
    case False
    with 1(2,3) next_particle [of i m 2]
    have ge: "i + 3 \<le> m" and md: "(m - (i + 3)) mod 3 = 2" by simp_all
    have same: "fst (dust_body rnd vs i s) ! m = fst s ! m"
      using ge dust_body_other [of m i rnd vs "fst s" "snd s"] by simp
    from "1.IH" [OF lt ge md] 1(4) show ?thesis
      unfolding unfold same by simp
  qed
qed

lemma side_resets_empty [simp]: "side_resets ps vs i i = 0"
  by (simp add: side_resets_def)

lemma side_resets_split:
  "i \<le> j \<Longrightarrow> j \<le> m \<Longrightarrow> side_resets ps vs i m = side_resets ps vs i j + side_resets ps vs j m"
proof -
  assume "i \<le> j" "j \<le> m"
  then have "[i..<m] = [i..<j] @ [j..<m]"
    by (metis le_Suc_ex upt_add_eq_append)
  then show ?thesis by (simp add: side_resets_def)
qed

lemma side_resets_cong:
  "(\<And>j. i \<le> j \<Longrightarrow> j < m \<Longrightarrow> ps' ! j = ps ! j) \<Longrightarrow> side_resets ps' vs i m = side_resets ps vs i m"
  unfolding side_resets_def
  by (rule arg_cong [where f = length], rule filter_cong) auto

lemma side_resets_particle:
  assumes "i mod 3 = 0"
  shows "side_resets ps vs i (i + 2) = (if \<bar>ps ! i + vs ! i\<bar> > 40 then 1 else 0)"
    and "side_resets ps vs i (i + 3) =
           (if \<bar>ps ! i + vs ! i\<bar> > 40 then 1 else 0)
         + (if \<bar>ps ! (i + 2) + vs ! (i + 2)\<bar> > 40 then 1 else 0)"
proof -
  have a: "(i + 1) mod 3 = 1" "(i + 2) mod 3 = 2"
    using assms by (simp_all add: mod_Suc)
  have u2: "[i..<i + 2] = [i, i + 1]" and u3: "[i..<i + 3] = [i, i + 1, i + 2]"
    by (simp_all add: upt_rec [of i] upt_rec [of "Suc i"] upt_rec [of "Suc (Suc i)"])
  show "side_resets ps vs i (i + 2) = (if \<bar>ps ! i + vs ! i\<bar> > 40 then 1 else 0)"
    unfolding side_resets_def u2 using assms a by simp
  show "side_resets ps vs i (i + 3) =
           (if \<bar>ps ! i + vs ! i\<bar> > 40 then 1 else 0)
         + (if \<bar>ps ! (i + 2) + vs ! (i + 2)\<bar> > 40 then 1 else 0)"
    unfolding side_resets_def u3 using assms a by simp
qed

lemma side_resets_counted:
  assumes "i \<le> m" and "m < n" and "m mod 3 \<noteq> 1" and "\<bar>ps ! m + vs ! m\<bar> > 40"
  shows "side_resets ps vs i m < side_resets ps vs i n"
proof -
  have "[m..<Suc m] = [m]" by simp
  then have one: "side_resets ps vs m (Suc m) = 1"
    using assms(3,4) by (simp add: side_resets_def)
  have "side_resets ps vs i n = side_resets ps vs i m + side_resets ps vs m n"
    using assms(1,2) by (intro side_resets_split) simp_all
  also have "side_resets ps vs m n = side_resets ps vs m (Suc m) + side_resets ps vs (Suc m) n"
    using assms(2) by (intro side_resets_split) simp_all
  finally show ?thesis using one by simp
qed

lemma aligned_step:
  fixes i n :: nat
  assumes "i mod 3 = 0" and "n mod 3 = 0" and "i < n"
  shows "i + 3 \<le> n" and "(i + 3) mod 3 = 0"
proof -
  from assms(1) obtain a where a: "i = 3 * a" by (auto elim: dvdE simp: mod_eq_0_iff_dvd)
  from assms(2) obtain b where b: "n = 3 * b" by (auto elim: dvdE simp: mod_eq_0_iff_dvd)
  from assms(3) have "a < b" unfolding a b by simp
  then have "Suc a \<le> b" by simp
  then have "3 * Suc a \<le> 3 * b" by (rule mult_le_mono2)
  then show "i + 3 \<le> n" unfolding a b by simp
  show "(i + 3) mod 3 = 0" unfolding a by simp
qed

lemma dust_body_side_draws:
  "i + 2 < length (fst s) \<Longrightarrow> i mod 3 = 0 \<Longrightarrow>
   snd (dust_body rnd vs i s) = snd s + side_resets (fst s) vs i (i + 3)"
  using dust_body_draws [of i "fst s" rnd vs "snd s"]
  by (simp add: side_resets_particle)

lemma dust_loop_draws:
  "i mod 3 = 0 \<Longrightarrow> length (fst s) mod 3 = 0 \<Longrightarrow> i \<le> length (fst s) \<Longrightarrow>
   snd (dust_loop rnd vs i s) = snd s + side_resets (fst s) vs i (length (fst s))"
proof (induction rnd vs i s rule: dust_loop.induct)
  case (1 rnd vs i s)
  show ?case
  proof (cases "i < length (fst s)")
    case True
    note st = aligned_step [OF 1(2,3) True]
    have unfold: "dust_loop rnd vs i s = dust_loop rnd vs (i + 3) (dust_body rnd vs i s)"
      using True by (simp add: dust_loop.simps [of rnd vs i s])
    have body: "snd (dust_body rnd vs i s) = snd s + side_resets (fst s) vs i (i + 3)"
      using st(1) 1(2) by (intro dust_body_side_draws) simp_all
    have same: "side_resets (fst (dust_body rnd vs i s)) vs (i + 3) (length (fst s))
                  = side_resets (fst s) vs (i + 3) (length (fst s))"
      by (rule side_resets_cong) (use dust_body_other [of _ i rnd vs "fst s" "snd s"] in simp)
    have "snd (dust_loop rnd vs (i + 3) (dust_body rnd vs i s)) =
            snd (dust_body rnd vs i s)
            + side_resets (fst (dust_body rnd vs i s)) vs (i + 3) (length (fst (dust_body rnd vs i s)))"
      using "1.IH" [OF True st(2)] 1(3) st(1) by simp
    then show ?thesis
      unfolding unfold body using same side_resets_split [of i "i + 3" "length (fst s)" "fst s" vs] st(1)
      by simp
  next
    case False
    with 1(4) have "i = length (fst s)" by simp
    then show ?thesis unfolding dust_loop.simps [of rnd vs i s] by simp
  qed
qed

lemma dust_loop_side:
  "i mod 3 = 0 \<Longrightarrow> length (fst s) mod 3 = 0 \<Longrightarrow> i \<le> m \<Longrightarrow> m < length (fst s) \<Longrightarrow> m mod 3 \<noteq> 1 \<Longrightarrow>
   fst (dust_loop rnd vs i s) ! m =
     (if \<bar>fst s ! m + vs ! m\<bar> > 40
      then (rnd (snd s + side_resets (fst s) vs i m) - 0.5) * 80
      else fst s ! m + vs ! m)"
proof (induction rnd vs i s rule: dust_loop.induct)
  case (1 rnd vs i s)
  from 1(4,5) have lt: "i < length (fst s)" by simp
  note st = aligned_step [OF 1(2,3) lt]
  have unfold: "dust_loop rnd vs i s = dust_loop rnd vs (i + 3) (dust_body rnd vs i s)"
    using lt by (simp add: dust_loop.simps [of rnd vs i s])
  show ?case
  proof (cases "m < i + 3")
    case True
    have b: "fst (dust_loop rnd vs i s) ! m = fst (dust_body rnd vs i s) ! m"
      unfolding unfold using True by (simp add: dust_loop_before)
    have "m \<noteq> i + 1" using 1(2,6) by (auto simp: mod_Suc)
    with True 1(4) have "m = i \<or> m = i + 2" by auto
    then have "fst (dust_body rnd vs i s) ! m =
            (if \<bar>fst s ! m + vs ! m\<bar> > 40
             then (rnd (snd s + side_resets (fst s) vs i m) - 0.5) * 80
             else fst s ! m + vs ! m)"
    proof
      assume m: "m = i"
      show ?thesis
        using lt dust_body_x [of i "fst s" rnd vs "snd s"] by (simp add: m)
    next
      assume m: "m = i + 2"
      have sr: "side_resets (fst s) vs i (Suc (Suc i)) = (if \<bar>fst s ! i + vs ! i\<bar> > 40 then 1 else 0)"
        using side_resets_particle(1) [OF 1(2), of "fst s" vs] by simp
      show ?thesis
        using st(1) dust_body_z [of i "fst s" rnd vs "snd s"]
        by (simp add: m sr)
    qed
    then show ?thesis unfolding b .
  next
    case False
    then have ge: "i + 3 \<le> m" by simp
    have body: "snd (dust_body rnd vs i s) = snd s + side_resets (fst s) vs i (i + 3)"
      using st(1) 1(2) by (intro dust_body_side_draws) simp_all
    have cell: "fst (dust_body rnd vs i s) ! m = fst s ! m"
      using ge dust_body_other [of m i rnd vs "fst s" "snd s"] by simp
    have same: "side_resets (fst (dust_body rnd vs i s)) vs (i + 3) m = side_resets (fst s) vs (i + 3) m"
      by (rule side_resets_cong) (use dust_body_other [of _ i rnd vs "fst s" "snd s"] in simp)
    have split: "side_resets (fst s) vs i m = side_resets (fst s) vs i (i + 3) + side_resets (fst s) vs (i + 3) m"
      using ge by (intro side_resets_split) simp_all
    have "fst (dust_loop rnd vs (i + 3) (dust_body rnd vs i s)) ! m =
            (if \<bar>fst (dust_body rnd vs i s) ! m + vs ! m\<bar> > 40
             then (rnd (snd (dust_body rnd vs i s)
                        + side_resets (fst (dust_body rnd vs i s)) vs (i + 3) m) - 0.5) * 80
             else fst (dust_body rnd vs i s) ! m + vs ! m)"
      using "1.IH" [OF lt st(2) _ ge _ 1(6)] 1(3,5) by simp
    then show ?thesis
      unfolding unfold cell same body split by (simp add: add.assoc)
  qed
qed

lemma rerandomized_in_band:
  "0 \<le> r \<Longrightarrow> r < 1 \<Longrightarrow> - 40 \<le> (r - 0.5) * 80 \<and> (r - 0.5) * 80 \<le> (40::real)"
  by simp

lemma useFrame_dust:
  "dustRef refs = Some dust \<Longrightarrow>
   dustRef (fst (AtmosphericEffects_useFrame rnd elapsed delta (refs, k))) =
     Some (dust\<lparr>position_array := fst (dust_loop rnd (velocity_array dust) 0 (position_array dust, k))\<rparr>)"
  by (simp add: AtmosphericEffects_useFrame_def Let_def split_def split: option.splits)

lemma useFrame_positions:
  "dustRef refs \<noteq> None \<Longrightarrow>
   dust_positions (fst (AtmosphericEffects_useFrame rnd elapsed delta (refs, k))) =
     fst (dust_loop rnd (dust_velocities refs) 0 (dust_positions refs, k))"
  by (auto simp: dust_positions_def dust_velocities_def useFrame_dust)

lemma useFrame_velocities:
  "dust_velocities (fst (AtmosphericEffects_useFrame rnd elapsed delta (refs, k))) = dust_velocities refs"
  by (simp add: AtmosphericEffects_useFrame_def dust_velocities_def Let_def split_def split: option.splits)

lemma useFrame_mounted:
  "dustRef refs \<noteq> None \<Longrightarrow>
   dustRef (fst (AtmosphericEffects_useFrame rnd elapsed delta (refs, k))) \<noteq> None"
  by (auto simp: useFrame_dust)

lemma useFrame_length:
  "length (dust_positions (fst (AtmosphericEffects_useFrame rnd elapsed delta (refs, k)))) =
   length (dust_positions refs)"
  by (cases "dustRef refs")
     (simp_all add: AtmosphericEffects_useFrame_def dust_positions_def Let_def split_def split: option.splits)

lemma render_loop_snoc:
  "render_loop rnd (frames @ [(elapsed, delta)]) s =
   AtmosphericEffects_useFrame rnd elapsed delta (render_loop rnd frames s)"
  by (simp add: render_loop_def)

lemma render_loop_invariant:
  "dustRef (fst s) \<noteq> None \<Longrightarrow>
   dustRef (fst (render_loop rnd frames s)) \<noteq> None
   \<and> length (dust_positions (fst (render_loop rnd frames s))) = length (dust_positions (fst s))"
proof (induction frames rule: rev_induct)
  case Nil
  then show ?case by (simp add: render_loop_def)
next
  case (snoc f frames)
  obtain elapsed delta where f: "f = (elapsed, delta)" by (cases f)
  obtain refs k where r: "render_loop rnd frames s = (refs, k)" by (cases "render_loop rnd frames s")
  from snoc r have "dustRef refs \<noteq> None" and "length (dust_positions refs) = length (dust_positions (fst s))"
    by simp_all
  then show ?case
    unfolding f render_loop_snoc r by (simp add: useFrame_mounted useFrame_length)
qed


lemma dustGeometry_body_eq:
  "dustGeometry_body rnd i (ps, vs, k) =
     (ps[i * 3 := (rnd k - 0.5) * 80, i * 3 + 1 := rnd (k + 1) * 40 + 5,
         i * 3 + 2 := (rnd (k + 2) - 0.5) * 80],
      vs[i * 3 := (rnd (k + 3) - 0.5) * 0.02, i * 3 + 1 := rnd (k + 4) * 0.01 + 0.005,
         i * 3 + 2 := (rnd (k + 5) - 0.5) * 0.02],
      k + 6)"
  by (simp add: dustGeometry_body_def Let_def Math_random_def numeral_eq_Suc)

lemma dustGeometry_loop_length:
  "length (fst (dustGeometry_loop rnd i s)) = length (fst s)
   \<and> length (fst (snd (dustGeometry_loop rnd i s))) = length (fst (snd s))"
proof (induction rnd i s rule: dustGeometry_loop.induct)
  case (1 rnd i s)
  obtain ps vs k where s: "s = (ps, vs, k)" by (cases s)
  have body: "length (fst (dustGeometry_body rnd i s)) = length (fst s)"
             "length (fst (snd (dustGeometry_body rnd i s))) = length (fst (snd s))"
    by (simp_all add: s dustGeometry_body_eq)
  show ?case
  proof (cases "i < 200")
    case True
    with 1 body show ?thesis
      unfolding dustGeometry_loop.simps [of rnd i s] by simp
  next
    case False
    then show ?thesis
      unfolding dustGeometry_loop.simps [of rnd i s] by simp
  qed
qed

lemma dustGeometry_loop_before:
  "m < i * 3 \<Longrightarrow>
   fst (dustGeometry_loop rnd i s) ! m = fst s ! m
   \<and> fst (snd (dustGeometry_loop rnd i s)) ! m = fst (snd s) ! m"
proof (induction rnd i s rule: dustGeometry_loop.induct)
  case (1 rnd i s)
  obtain ps vs k where s: "s = (ps, vs, k)" by (cases s)
  have body: "fst (dustGeometry_body rnd i s) ! m = fst s ! m"
             "fst (snd (dustGeometry_body rnd i s)) ! m = fst (snd s) ! m"
    using 1(2) by (simp_all add: s dustGeometry_body_eq)
  show ?case
  proof (cases "i < 200")
    case True
    with 1 body show ?thesis
      unfolding dustGeometry_loop.simps [of rnd i s] by simp
  next
    case False
    then show ?thesis
      unfolding dustGeometry_loop.simps [of rnd i s] by simp
  qed
qed

lemma dustGeometry_loop_cells:
  "i \<le> p \<Longrightarrow> p < 200 \<Longrightarrow> p * 3 + 2 < length (fst s) \<Longrightarrow> p * 3 + 2 < length (fst (snd s)) \<Longrightarrow>
   fst (dustGeometry_loop rnd i s) ! (p * 3) = (rnd (snd (snd s) + 6 * (p - i)) - 0.5) * 80
   \<and> fst (dustGeometry_loop rnd i s) ! (p * 3 + 1) = rnd (snd (snd s) + 6 * (p - i) + 1) * 40 + 5
   \<and> fst (dustGeometry_loop rnd i s) ! (p * 3 + 2) = (rnd (snd (snd s) + 6 * (p - i) + 2) - 0.5) * 80
   \<and> fst (snd (dustGeometry_loop rnd i s)) ! (p * 3) = (rnd (snd (snd s) + 6 * (p - i) + 3) - 0.5) * 0.02
   \<and> fst (snd (dustGeometry_loop rnd i s)) ! (p * 3 + 1) = rnd (snd (snd s) + 6 * (p - i) + 4) * 0.01 + 0.005
   \<and> fst (snd (dustGeometry_loop rnd i s)) ! (p * 3 + 2) = (rnd (snd (snd s) + 6 * (p - i) + 5) - 0.5) * 0.02"
proof (induction rnd i s rule: dustGeometry_loop.induct)
  case (1 rnd i s)
  obtain ps vs k where s: "s = (ps, vs, k)" by (cases s)
  from 1(2,3) have lt: "i < 200" by simp
  have unfold: "dustGeometry_loop rnd i s = dustGeometry_loop rnd (Suc i) (dustGeometry_body rnd i s)"
    using lt by (simp add: dustGeometry_loop.simps [of rnd i s])
  show ?case
  proof (cases "p = i")
    case True
    have b: "p * 3 < Suc i * 3" "p * 3 + 1 < Suc i * 3" "p * 3 + 2 < Suc i * 3"
      using True by simp_all
    have cells:
      "fst (dustGeometry_body rnd i s) ! (p * 3) = (rnd (snd (snd s) + 6 * (p - i)) - 0.5) * 80"
      "fst (dustGeometry_body rnd i s) ! (p * 3 + 1) = rnd (snd (snd s) + 6 * (p - i) + 1) * 40 + 5"
      "fst (dustGeometry_body rnd i s) ! (p * 3 + 2) = (rnd (snd (snd s) + 6 * (p - i) + 2) - 0.5) * 80"
      "fst (snd (dustGeometry_body rnd i s)) ! (p * 3) = (rnd (snd (snd s) + 6 * (p - i) + 3) - 0.5) * 0.02"
      "fst (snd (dustGeometry_body rnd i s)) ! (p * 3 + 1) = rnd (snd (snd s) + 6 * (p - i) + 4) * 0.01 + 0.005"
      "fst (snd (dustGeometry_body rnd i s)) ! (p * 3 + 2) = (rnd (snd (snd s) + 6 * (p - i) + 5) - 0.5) * 0.02"
      using 1(4,5) True by (simp_all add: s dustGeometry_body_eq)
    show ?thesis
      unfolding unfold
      by (simp only: dustGeometry_loop_before [OF b(1)] dustGeometry_loop_before [OF b(2)]
            dustGeometry_loop_before [OF b(3)] cells)
  next
    case False
    with 1(2) have ge: "Suc i \<le> p" by simp
    have k: "snd (snd (dustGeometry_body rnd i s)) + 6 * (p - Suc i) = snd (snd s) + 6 * (p - i)"
      using ge by (simp add: s dustGeometry_body_eq)
    have l: "p * 3 + 2 < length (fst (dustGeometry_body rnd i s))"
            "p * 3 + 2 < length (fst (snd (dustGeometry_body rnd i s)))"
      using 1(4,5) by (simp_all add: s dustGeometry_body_eq)
    show ?thesis
      unfolding unfold using "1.IH" [OF lt ge 1(3) l] unfolding k .
  qed
qed

lemma dustGeometry_lengths:
  "length (position_array (fst (dustGeometry rnd k))) = 600
   \<and> length (velocity_array (fst (dustGeometry rnd k))) = 600"
  using dustGeometry_loop_length [of rnd 0 "(replicate (200 * 3) 0, replicate (200 * 3) 0, k)"]
  by (simp add: dustGeometry_def split_def)

lemma dustGeometry_particle:
  assumes "p < 200"
  shows "position_array (fst (dustGeometry rnd k)) ! (p * 3) = (rnd (k + 6 * p) - 0.5) * 80"
    and "position_array (fst (dustGeometry rnd k)) ! (p * 3 + 1) = rnd (k + 6 * p + 1) * 40 + 5"
    and "position_array (fst (dustGeometry rnd k)) ! (p * 3 + 2) = (rnd (k + 6 * p + 2) - 0.5) * 80"
    and "velocity_array (fst (dustGeometry rnd k)) ! (p * 3) = (rnd (k + 6 * p + 3) - 0.5) * 0.02"
    and "velocity_array (fst (dustGeometry rnd k)) ! (p * 3 + 1) = rnd (k + 6 * p + 4) * 0.01 + 0.005"
    and "velocity_array (fst (dustGeometry rnd k)) ! (p * 3 + 2) = (rnd (k + 6 * p + 5) - 0.5) * 0.02"
  using assms dustGeometry_loop_cells [of 0 p "(replicate (200 * 3) 0, replicate (200 * 3) 0, k)" rnd]
  by (simp_all add: dustGeometry_def split_def)


lemma mount_dust:
  "dustRef (fst (AtmosphericEffects_mount rnd k)) \<noteq> None"
  "dust_positions (fst (AtmosphericEffects_mount rnd k)) = position_array (fst (dustGeometry rnd k))"
  "dust_velocities (fst (AtmosphericEffects_mount rnd k)) = velocity_array (fst (dustGeometry rnd k))"
  by (simp_all add: AtmosphericEffects_mount_def dust_positions_def dust_velocities_def split_def Let_def)

lemma dust_mounted_ref: "dust_mounted refs \<Longrightarrow> dustRef refs \<noteq> None"
  by (auto simp: dust_mounted_def split: option.splits)

lemma mount_mounted: "dust_mounted (fst (AtmosphericEffects_mount rnd k))"
  using dustGeometry_lengths [of rnd k]
  by (simp add: dust_mounted_def AtmosphericEffects_mount_def split_def Let_def)

lemma dustGeometry_loop_draws:
  "i \<le> 200 \<Longrightarrow> snd (snd (dustGeometry_loop rnd i s)) = snd (snd s) + 6 * (200 - i)"
proof (induction rnd i s rule: dustGeometry_loop.induct)
  case (1 rnd i s)
  obtain ps vs k where s: "s = (ps, vs, k)" by (cases s)
  have body: "snd (snd (dustGeometry_body rnd i s)) = snd (snd s) + 6"
    by (simp add: s dustGeometry_body_eq)
  show ?case
  proof (cases "i < 200")
    case True
    with 1 body show ?thesis
      unfolding dustGeometry_loop.simps [of rnd i s] by simp
  next
    case False
    with 1(2) show ?thesis
      unfolding dustGeometry_loop.simps [of rnd i s] by simp
  qed
qed

lemma lightRays_loop_draws:
  "i \<le> 8 \<Longrightarrow> snd (lightRays_loop rnd i s) = snd s + 3 * (8 - i)"
proof (induction rnd i s rule: lightRays_loop.induct)
  case (1 rnd i s)
  have body: "snd (lightRays_body rnd i s) = snd s + 3"
    by (simp add: lightRays_body_def Math_random_def Let_def split_def)
  show ?case
  proof (cases "i < 8")
    case True
    with 1 body show ?thesis
      unfolding lightRays_loop.simps [of rnd i s] by simp
  next
    case False
    with 1(2) show ?thesis
      unfolding lightRays_loop.simps [of rnd i s] by simp
  qed
qed

lemma mount_draws: "snd (AtmosphericEffects_mount rnd k) = k + 1224"
  using dustGeometry_loop_draws [of 0 rnd "(replicate (200 * 3) 0, replicate (200 * 3) 0, k)"]
    lightRays_loop_draws [of 0 rnd "([], snd (dustGeometry rnd k))"]
  by (simp add: AtmosphericEffects_mount_def dustGeometry_def lightRays_def split_def Let_def)

lemma frame_positions:
  "dustRef (fst s) \<noteq> None \<Longrightarrow>
   dust_positions (fst (AtmosphericEffects_useFrame rnd elapsed delta s)) =
     fst (dust_loop rnd (dust_velocities (fst s)) 0 (dust_positions (fst s), snd s))"
  using useFrame_positions [of "fst s" rnd elapsed delta "snd s"] by simp

lemma frame_velocities:
  "dust_velocities (fst (AtmosphericEffects_useFrame rnd elapsed delta s)) = dust_velocities (fst s)"
  using useFrame_velocities [of rnd elapsed delta "fst s" "snd s"] by simp

lemma frame_mounted:
  "dustRef (fst s) \<noteq> None \<Longrightarrow> dustRef (fst (AtmosphericEffects_useFrame rnd elapsed delta s)) \<noteq> None"
  using useFrame_mounted [of "fst s" rnd elapsed delta "snd s"] by simp

lemma frame_height:
  assumes "dustRef (fst s) \<noteq> None" and "m < length (dust_positions (fst s))" and "m mod 3 = 1"
  shows "dust_positions (fst (AtmosphericEffects_useFrame rnd elapsed delta s)) ! m =
     (if dust_positions (fst s) ! m + dust_velocities (fst s) ! m > 45 then 5
      else dust_positions (fst s) ! m + dust_velocities (fst s) ! m)"
  using assms dust_loop_height [of 0 m "(dust_positions (fst s), snd s)" rnd "dust_velocities (fst s)"]
  by (simp add: frame_positions)

lemma frame_side:
  assumes "dustRef (fst s) \<noteq> None" and "m < length (dust_positions (fst s))" and "m mod 3 \<noteq> 1"
  shows "\<exists>k'. dust_positions (fst (AtmosphericEffects_useFrame rnd elapsed delta s)) ! m =
     (if \<bar>dust_positions (fst s) ! m + dust_velocities (fst s) ! m\<bar> > 40 then (rnd k' - 0.5) * 80
      else dust_positions (fst s) ! m + dust_velocities (fst s) ! m)"
proof -
  from assms(3) have "m mod 3 = 0 \<or> m mod 3 = 2" by (simp add: mod_exhaust_less_4 less_Suc_eq) arith
  then show ?thesis
  proof
    assume "m mod 3 = 0"
    with assms(1,2) dust_loop_x [of 0 m "(dust_positions (fst s), snd s)" rnd "dust_velocities (fst s)"]
    show ?thesis unfolding frame_positions [OF assms(1)] by (auto split: if_splits)
  next
    assume "m mod 3 = 2"
    with assms(1,2) dust_loop_z [of 0 m "(dust_positions (fst s), snd s)" rnd "dust_velocities (fst s)"]
    show ?thesis unfolding frame_positions [OF assms(1)] by (auto split: if_splits)
  qed
qed

lemma frame_draws:
  "dustRef (fst s) \<noteq> None \<Longrightarrow>
   snd (AtmosphericEffects_useFrame rnd elapsed delta s) =
     snd (dust_loop rnd (dust_velocities (fst s)) 0 (dust_positions (fst s), snd s))"
  by (cases s)
     (auto simp: AtmosphericEffects_useFrame_def dust_positions_def dust_velocities_def
        Let_def split_def split: option.splits)

lemma dust_mounted_aligned: "dust_mounted refs \<Longrightarrow> length (dust_positions refs) mod 3 = 0"
  by (auto simp: dust_mounted_def dust_positions_def split: option.splits)

lemma frame_side_exact:
  assumes "dust_mounted (fst s)" and "m < length (dust_positions (fst s))" and "m mod 3 \<noteq> 1"
  shows "dust_positions (fst (AtmosphericEffects_useFrame rnd elapsed delta s)) ! m =
     (if \<bar>dust_positions (fst s) ! m + dust_velocities (fst s) ! m\<bar> > 40
      then (rnd (snd s + side_resets (dust_positions (fst s)) (dust_velocities (fst s)) 0 m) - 0.5) * 80
      else dust_positions (fst s) ! m + dust_velocities (fst s) ! m)"
  using assms(2,3) dust_mounted_aligned [OF assms(1)]
    dust_loop_side [of 0 "(dust_positions (fst s), snd s)" m rnd "dust_velocities (fst s)"]
  by (simp add: frame_positions [OF dust_mounted_ref [OF assms(1)]])

lemma frame_draws_exact:
  assumes "dust_mounted (fst s)"
  shows "snd (AtmosphericEffects_useFrame rnd elapsed delta s) =
     snd s + side_resets (dust_positions (fst s)) (dust_velocities (fst s)) 0
               (length (dust_positions (fst s)))"
  using dust_mounted_aligned [OF assms]
    dust_loop_draws [of 0 "(dust_positions (fst s), snd s)" rnd "dust_velocities (fst s)"]
  by (simp add: frame_draws [OF dust_mounted_ref [OF assms]])

lemma frame_rotation:
  "lightRays_rotation (fst (AtmosphericEffects_useFrame rnd elapsed delta s)) =
     map_option (\<lambda>r. r + delta * 0.02) (lightRays_rotation (fst s))"
  by (cases s)
     (auto simp: AtmosphericEffects_useFrame_def lightRays_rotation_def Let_def split_def
        split: option.splits)

text \<open>
  Claim C1, as the code has it. What the frame callbacks of \<open>FloatingOrb\<close> and
  \<open>FloatingIsland\<close> write is fixed by the props and the elapsed time: whatever the object
  held before the frame, the position and the emissive intensity (the height and the
  rotation of the island) after the frame are the same, and running the callback again at
  the same time changes nothing. Not every frame callback is of this kind: the one of
  \<open>AtmosphericEffects\<close> adds \<open>delta * 0.02\<close> to the rotation the light rays had before the
  frame.
\<close>

theorem FloatingOrb_useFrame_deterministic:
  assumes "material m1 = MeshStandardMaterial g1"
    and "material m2 = MeshStandardMaterial g2"
  shows "(\<exists>r1 r2. FloatingOrb_useFrame props t (Some m1) = Some r1
           \<and> FloatingOrb_useFrame props t (Some m2) = Some r2
           \<and> position_x r1 = position_x r2 \<and> position_y r1 = position_y r2
           \<and> position_z r1 = position_z r2 \<and> material r1 = material r2
           \<and> FloatingOrb_useFrame props t (Some r1) = Some r1)
       \<and> (\<exists>j1 j2. FloatingIsland_useFrame t (Some i1) = Some j1
           \<and> FloatingIsland_useFrame t (Some i2) = Some j2
           \<and> position_y j1 = position_y j2 \<and> rotation_y j1 = rotation_y j2
           \<and> FloatingIsland_useFrame t (Some j1) = Some j1)
       \<and> lightRays_rotation (fst (AtmosphericEffects_useFrame rnd t delta s))
           = map_option (\<lambda>r. r + delta * 0.02) (lightRays_rotation (fst s))"
  using assms
  by (simp add: FloatingOrb_useFrame_def FloatingIsland_useFrame_def Let_def frame_rotation)

theorem FloatingOrb_useFrame_deterministic_witness:
  "\<exists>r1 r2.
     FloatingOrb_useFrame
        \<lparr>position = (-3, 2, -1), color = ''#ffb3ba'', size_orb = 0.08, speed = 0.8\<rparr> 0
        (Some \<lparr>position_x = 7, position_y = 9, position_z = 11, rotation_y = 1,
               material = MeshStandardMaterial 5\<rparr>) = Some r1
   \<and> FloatingOrb_useFrame
        \<lparr>position = (-3, 2, -1), color = ''#ffb3ba'', size_orb = 0.08, speed = 0.8\<rparr> 0
        (Some (FloatingOrb_mesh
          \<lparr>position = (-3, 2, -1), color = ''#ffb3ba'', size_orb = 0.08, speed = 0.8\<rparr>))
        = Some r2
   \<and> position_x r1 = position_x r2 \<and> position_y r1 = position_y r2
   \<and> position_z r1 = position_z r2 \<and> material r1 = material r2
   \<and> FloatingOrb_useFrame
        \<lparr>position = (-3, 2, -1), color = ''#ffb3ba'', size_orb = 0.08, speed = 0.8\<rparr> 0
        (Some r1) = Some r1"
  using FloatingOrb_useFrame_deterministic
    [of "\<lparr>position_x = 7, position_y = 9, position_z = 11, rotation_y = 1,
           material = MeshStandardMaterial 5\<rparr>" 5
        "FloatingOrb_mesh
           \<lparr>position = (-3, 2, -1), color = ''#ffb3ba'', size_orb = 0.08, speed = 0.8\<rparr>" "0.3"
        "\<lparr>position = (-3, 2, -1), color = ''#ffb3ba'', size_orb = 0.08, speed = 0.8\<rparr>" 0]
  by (simp add: FloatingOrb_mesh_def)

text \<open>
  Claim C1 as stated fails for \<open>AtmosphericEffects\<close>: two evaluations of its frame callback
  with the same elapsed time 1 and the same delta, the first on the mounted component and
  the second on what the first left, give the light rays the rotation 0.0004 and then
  0.0008.
\<close>

theorem lightRays_rotation_depends_on_history:
  "lightRays_rotation (fst (AtmosphericEffects_useFrame (\<lambda>k. 1 / 2) 1 (1 / 50)
      (AtmosphericEffects_mount (\<lambda>k. 1 / 2) 0))) = Some (4 / 10000)
   \<and> lightRays_rotation (fst (AtmosphericEffects_useFrame (\<lambda>k. 1 / 2) 1 (1 / 50)
      (AtmosphericEffects_useFrame (\<lambda>k. 1 / 2) 1 (1 / 50)
        (AtmosphericEffects_mount (\<lambda>k. 1 / 2) 0)))) = Some (8 / 10000)"
proof -
  have m: "lightRays_rotation (fst (AtmosphericEffects_mount (\<lambda>k. 1 / 2) 0)) = Some 0"
    by (simp add: lightRays_rotation_def AtmosphericEffects_mount_def split_def Let_def)
  have one: "lightRays_rotation (fst (AtmosphericEffects_useFrame (\<lambda>k. 1 / 2) 1 (1 / 50)
      (AtmosphericEffects_mount (\<lambda>k. 1 / 2) 0))) = Some (4 / 10000)"
    unfolding frame_rotation m by simp
  have two: "lightRays_rotation (fst (AtmosphericEffects_useFrame (\<lambda>k. 1 / 2) 1 (1 / 50)
      (AtmosphericEffects_useFrame (\<lambda>k. 1 / 2) 1 (1 / 50)
        (AtmosphericEffects_mount (\<lambda>k. 1 / 2) 0)))) = Some (8 / 10000)"
    unfolding frame_rotation [of _ _ _ "AtmosphericEffects_useFrame (\<lambda>k. 1 / 2) 1 (1 / 50)
        (AtmosphericEffects_mount (\<lambda>k. 1 / 2) 0)"] one by simp
  show ?thesis using one two by (rule conjI)
qed

text \<open>
  Claim C3. In one frame, a particle whose height after the velocity step exceeds 45 is
  written back at height 5, which lies in \<open>[5, 45)\<close>; and after any sequence of one or more
  frames no particle is above 45, whatever its velocity.
\<close>

theorem dust_height_reset:
  assumes "dust_mounted (fst s)" and "m < length (dust_positions (fst s))" and "m mod 3 = 1"
  shows "(dust_positions (fst s) ! m + dust_velocities (fst s) ! m > 45 \<longrightarrow>
            dust_positions (fst (AtmosphericEffects_useFrame rnd elapsed delta s)) ! m = 5
          \<and> 5 \<le> dust_positions (fst (AtmosphericEffects_useFrame rnd elapsed delta s)) ! m
          \<and> dust_positions (fst (AtmosphericEffects_useFrame rnd elapsed delta s)) ! m < 45)
       \<and> (frames \<noteq> [] \<longrightarrow> dust_positions (fst (render_loop rnd frames s)) ! m \<le> 45)"
proof (intro conjI impI)
  note ref = dust_mounted_ref [OF assms(1)]
  assume "dust_positions (fst s) ! m + dust_velocities (fst s) ! m > 45"
  then show a: "dust_positions (fst (AtmosphericEffects_useFrame rnd elapsed delta s)) ! m = 5"
    using frame_height [OF ref assms(2,3)] by simp
  show "5 \<le> dust_positions (fst (AtmosphericEffects_useFrame rnd elapsed delta s)) ! m"
    unfolding a by simp
  show "dust_positions (fst (AtmosphericEffects_useFrame rnd elapsed delta s)) ! m < 45"
    unfolding a by simp
next
  note ref = dust_mounted_ref [OF assms(1)]
  assume "frames \<noteq> []"
  then obtain fs f where frames: "frames = fs @ [f]" by (cases frames rule: rev_cases) auto
  obtain e d where f: "f = (e, d)" by (cases f)
  let ?s' = "render_loop rnd fs s"
  have inv: "dustRef (fst ?s') \<noteq> None" "m < length (dust_positions (fst ?s'))"
    using render_loop_invariant [OF ref, of rnd fs] assms(2) by simp_all
  show "dust_positions (fst (render_loop rnd frames s)) ! m \<le> 45"
    unfolding frames f render_loop_snoc
    using frame_height [OF inv assms(3), of rnd e d] by simp
qed

theorem dust_height_reset_witness:
  "dust_mounted (fst (AtmosphericEffects_mount (\<lambda>k. if k = 1 then 9999 / 10000 else 9 / 10) 0))
   \<and> (1::nat) < length (dust_positions (fst (AtmosphericEffects_mount (\<lambda>k. if k = 1 then 9999 / 10000 else 9 / 10) 0)))
   \<and> (1::nat) mod 3 = 1
   \<and> dust_positions (fst (AtmosphericEffects_mount (\<lambda>k. if k = 1 then 9999 / 10000 else 9 / 10) 0)) ! 1
       + dust_velocities (fst (AtmosphericEffects_mount (\<lambda>k. if k = 1 then 9999 / 10000 else 9 / 10) 0)) ! 1 > 45
   \<and> dust_positions (fst (AtmosphericEffects_useFrame (\<lambda>k. if k = 1 then 9999 / 10000 else 9 / 10) 0 (1 / 60)
         (AtmosphericEffects_mount (\<lambda>k. if k = 1 then 9999 / 10000 else 9 / 10) 0))) ! 1 = 5
   \<and> dust_positions (fst (render_loop (\<lambda>k. if k = 1 then 9999 / 10000 else 9 / 10) [(0, 1 / 60), (1 / 60, 1 / 60)]
         (AtmosphericEffects_mount (\<lambda>k. if k = 1 then 9999 / 10000 else 9 / 10) 0))) ! 1 \<le> 45"
  using dust_height_reset
    [of "AtmosphericEffects_mount (\<lambda>k. if k = 1 then 9999 / 10000 else 9 / 10) 0" 1
        "\<lambda>k. if k = 1 then 9999 / 10000 else 9 / 10" 0 "1 / 60" "[(0, 1 / 60), (1 / 60, 1 / 60)]"]
    dustGeometry_particle(2,5) [of 0 "\<lambda>k. if k = 1 then 9999 / 10000 else 9 / 10" 0]
  by (simp add: mount_dust mount_mounted dustGeometry_lengths)

text \<open>
  Claim C2, as the code has it. The dust positions after a frame are computed from the
  positions the previous frame left: every coordinate that stays within its bound is the
  stored coordinate plus the particle's velocity. The elapsed time and the frame delta
  are not read: the same stored state gives the same positions at any time.
\<close>

theorem dust_positions_accumulate:
  assumes "dust_mounted (fst s)" and "m < length (dust_positions (fst s))"
  shows "dust_positions (fst (AtmosphericEffects_useFrame rnd e1 d1 s))
           = dust_positions (fst (AtmosphericEffects_useFrame rnd e2 d2 s))
       \<and> (m mod 3 = 1 \<longrightarrow> dust_positions (fst s) ! m + dust_velocities (fst s) ! m \<le> 45 \<longrightarrow>
            dust_positions (fst (AtmosphericEffects_useFrame rnd e1 d1 s)) ! m
              = dust_positions (fst s) ! m + dust_velocities (fst s) ! m)
       \<and> (m mod 3 \<noteq> 1 \<longrightarrow> \<bar>dust_positions (fst s) ! m + dust_velocities (fst s) ! m\<bar> \<le> 40 \<longrightarrow>
            dust_positions (fst (AtmosphericEffects_useFrame rnd e1 d1 s)) ! m
              = dust_positions (fst s) ! m + dust_velocities (fst s) ! m)"
proof (intro conjI impI)
  note ref = dust_mounted_ref [OF assms(1)]
  show "dust_positions (fst (AtmosphericEffects_useFrame rnd e1 d1 s))
          = dust_positions (fst (AtmosphericEffects_useFrame rnd e2 d2 s))"
    by (simp add: frame_positions [OF ref])
next
  note ref = dust_mounted_ref [OF assms(1)]
  assume "m mod 3 = 1" and "dust_positions (fst s) ! m + dust_velocities (fst s) ! m \<le> 45"
  then show "dust_positions (fst (AtmosphericEffects_useFrame rnd e1 d1 s)) ! m
               = dust_positions (fst s) ! m + dust_velocities (fst s) ! m"
    using frame_height [OF ref assms(2), of rnd e1 d1] by simp
next
  note ref = dust_mounted_ref [OF assms(1)]
  assume "m mod 3 \<noteq> 1" and "\<bar>dust_positions (fst s) ! m + dust_velocities (fst s) ! m\<bar> \<le> 40"
  then show "dust_positions (fst (AtmosphericEffects_useFrame rnd e1 d1 s)) ! m
               = dust_positions (fst s) ! m + dust_velocities (fst s) ! m"
    using frame_side [OF ref assms(2), of rnd e1 d1] by auto
qed

lemma dustGeometry_half:
  "position_array (fst (dustGeometry (\<lambda>k. 1 / 2) 0)) ! Suc 0 = 25"
  "velocity_array (fst (dustGeometry (\<lambda>k. 1 / 2) 0)) ! Suc 0 = 1 / 100"
  using dustGeometry_particle(2,5) [of 0 "\<lambda>k. 1 / 2" 0] by simp_all

theorem dust_positions_accumulate_witness:
  "dust_mounted (fst (AtmosphericEffects_mount (\<lambda>k. 1 / 2) 0))
   \<and> (1::nat) < length (dust_positions (fst (AtmosphericEffects_mount (\<lambda>k. 1 / 2) 0)))
   \<and> (1::nat) mod 3 = 1
   \<and> dust_positions (fst (AtmosphericEffects_mount (\<lambda>k. 1 / 2) 0)) ! 1 = 25
   \<and> dust_velocities (fst (AtmosphericEffects_mount (\<lambda>k. 1 / 2) 0)) ! 1 = 1 / 100
   \<and> dust_positions (fst (AtmosphericEffects_useFrame (\<lambda>k. 1 / 2) 1 (1 / 60)
         (AtmosphericEffects_mount (\<lambda>k. 1 / 2) 0))) ! 1 = 2501 / 100
   \<and> dust_positions (fst (AtmosphericEffects_useFrame (\<lambda>k. 1 / 2) 1 (1 / 60)
         (AtmosphericEffects_mount (\<lambda>k. 1 / 2) 0)))
     = dust_positions (fst (AtmosphericEffects_useFrame (\<lambda>k. 1 / 2) 7 (1 / 30)
         (AtmosphericEffects_mount (\<lambda>k. 1 / 2) 0)))"
  using dust_positions_accumulate
    [of "AtmosphericEffects_mount (\<lambda>k. 1 / 2) 0" 1 "\<lambda>k. 1 / 2" 1 "1 / 60" 7 "1 / 30"]
  by (auto simp: mount_dust mount_mounted dustGeometry_lengths dustGeometry_half)

text \<open>
  Claim C2 as stated fails: from the same construction, the height of the first particle
  at elapsed time 1 is 25.01 when one frame has run and 25.02 when two have, so the
  positions are not a function of the construction parameters and the elapsed time.
\<close>

theorem dust_state_depends_on_history:
  "dust_positions (fst (render_loop (\<lambda>k. 1 / 2) [(1, 1 / 60)]
       (AtmosphericEffects_mount (\<lambda>k. 1 / 2) 0))) ! 1 = 2501 / 100
   \<and> dust_positions (fst (render_loop (\<lambda>k. 1 / 2) [(1 / 2, 1 / 60), (1, 1 / 60)]
       (AtmosphericEffects_mount (\<lambda>k. 1 / 2) 0))) ! 1 = 2502 / 100"
proof -
  let ?rnd = "\<lambda>k::nat. 1 / 2 :: real"
  let ?s0 = "AtmosphericEffects_mount ?rnd 0"
  let ?s1 = "AtmosphericEffects_useFrame ?rnd (1 / 2) (1 / 60) ?s0"
  have m0: "dustRef (fst ?s0) \<noteq> None" "(1::nat) < length (dust_positions (fst ?s0))"
    by (simp_all add: mount_dust dustGeometry_lengths)
  have p0: "dust_positions (fst ?s0) ! 1 = 25" "dust_velocities (fst ?s0) ! 1 = 1 / 100"
    using dustGeometry_particle(2,5) [of 0 ?rnd 0] by (simp_all add: mount_dust)
  have one: "dust_positions (fst (AtmosphericEffects_useFrame ?rnd e d ?s0)) ! 1 = 2501 / 100" for e d
    using frame_height [OF m0, of ?rnd e d] p0 by simp
  have m1: "dustRef (fst ?s1) \<noteq> None" "(1::nat) < length (dust_positions (fst ?s1))"
    using m0 by (simp_all add: frame_mounted useFrame_length [of ?rnd _ _ "fst ?s0" "snd ?s0", simplified])
  have two: "dust_positions (fst (AtmosphericEffects_useFrame ?rnd 1 (1 / 60) ?s1)) ! 1 = 2502 / 100"
    using frame_height [OF m1, of ?rnd 1 "1 / 60"] one [of "1 / 2" "1 / 60"] p0(2)
    by (simp add: frame_velocities)
  show ?thesis
    using one [of 1 "1 / 60"] two by (simp add: render_loop_def)
qed


text \<open>
  Claim C4, as the code has it. A height that exceeds 45 after the velocity step is reset
  to the constant 5, without a draw. An x or z coordinate whose absolute value exceeds 40
  after the step is replaced by \<open>(Math.random() - 0.5) * 80\<close> for a draw of its own, made in
  this frame: its index is the index the frame started with plus the number of x and z
  resets earlier in the loop, every later cell has a greater one, and the frame consumes
  exactly one draw for each x or z reset. The new coordinate lies in \<open>[-40, 40]\<close>.
\<close>

theorem dust_reset_policy:
  assumes "dust_mounted (fst s)" and "m < length (dust_positions (fst s))" and "unit_draws rnd"
  shows "(m mod 3 = 1 \<longrightarrow> dust_positions (fst s) ! m + dust_velocities (fst s) ! m > 45 \<longrightarrow>
            dust_positions (fst (AtmosphericEffects_useFrame rnd elapsed delta s)) ! m = 5)
       \<and> (m mod 3 \<noteq> 1 \<longrightarrow> \<bar>dust_positions (fst s) ! m + dust_velocities (fst s) ! m\<bar> > 40 \<longrightarrow>
            dust_positions (fst (AtmosphericEffects_useFrame rnd elapsed delta s)) ! m
              = (rnd (snd s + side_resets (dust_positions (fst s)) (dust_velocities (fst s)) 0 m) - 0.5) * 80
            \<and> snd s + side_resets (dust_positions (fst s)) (dust_velocities (fst s)) 0 m
                < snd (AtmosphericEffects_useFrame rnd elapsed delta s)
            \<and> (\<forall>m' > m. side_resets (dust_positions (fst s)) (dust_velocities (fst s)) 0 m
                         < side_resets (dust_positions (fst s)) (dust_velocities (fst s)) 0 m')
            \<and> - 40 \<le> dust_positions (fst (AtmosphericEffects_useFrame rnd elapsed delta s)) ! m
            \<and> dust_positions (fst (AtmosphericEffects_useFrame rnd elapsed delta s)) ! m \<le> 40)
       \<and> snd (AtmosphericEffects_useFrame rnd elapsed delta s)
           = snd s + side_resets (dust_positions (fst s)) (dust_velocities (fst s)) 0
                       (length (dust_positions (fst s)))"
proof (intro conjI impI allI)
  note ref = dust_mounted_ref [OF assms(1)]
  assume "m mod 3 = 1" and "dust_positions (fst s) ! m + dust_velocities (fst s) ! m > 45"
  then show "dust_positions (fst (AtmosphericEffects_useFrame rnd elapsed delta s)) ! m = 5"
    using frame_height [OF ref assms(2), of rnd elapsed delta] by simp
next
  show "snd (AtmosphericEffects_useFrame rnd elapsed delta s)
          = snd s + side_resets (dust_positions (fst s)) (dust_velocities (fst s)) 0
                      (length (dust_positions (fst s)))"
    by (rule frame_draws_exact [OF assms(1)])
next
  let ?P = "dust_positions (fst s)" and ?V = "dust_velocities (fst s)"
  assume side: "m mod 3 \<noteq> 1" and out: "\<bar>?P ! m + ?V ! m\<bar> > 40"
  show new: "dust_positions (fst (AtmosphericEffects_useFrame rnd elapsed delta s)) ! m
               = (rnd (snd s + side_resets ?P ?V 0 m) - 0.5) * 80"
    using frame_side_exact [OF assms(1,2) side, of rnd elapsed delta] out by simp
  show "snd s + side_resets ?P ?V 0 m < snd (AtmosphericEffects_useFrame rnd elapsed delta s)"
    unfolding frame_draws_exact [OF assms(1)]
    using side_resets_counted [of 0 m "length ?P" ?P ?V] assms(2) side out by simp
  from assms(3) have r: "0 \<le> rnd (snd s + side_resets ?P ?V 0 m)" "rnd (snd s + side_resets ?P ?V 0 m) < 1"
    by (simp_all add: unit_draws_def)
  show "- 40 \<le> dust_positions (fst (AtmosphericEffects_useFrame rnd elapsed delta s)) ! m"
    unfolding new using rerandomized_in_band [OF r] by simp
  show "dust_positions (fst (AtmosphericEffects_useFrame rnd elapsed delta s)) ! m \<le> 40"
    unfolding new using rerandomized_in_band [OF r] by simp
  fix m' assume "m < m'"
  then show "side_resets ?P ?V 0 m < side_resets ?P ?V 0 m'"
    using side_resets_counted [of 0 m m' ?P ?V] side out by simp
qed

lemma dustGeometry_high:
  assumes "c = 1 / 10 \<or> c = 9 / 10"
  shows "position_array (fst (dustGeometry (\<lambda>k. if k < 1200 then 9999 / 10000 else c) 0)) ! 0 = 39992 / 1000"
    and "velocity_array (fst (dustGeometry (\<lambda>k. if k < 1200 then 9999 / 10000 else c) 0)) ! 0 = 9998 / 1000000"
    and "position_array (fst (dustGeometry (\<lambda>k. if k < 1200 then 9999 / 10000 else c) 0)) ! Suc 0 = 44996 / 1000"
    and "velocity_array (fst (dustGeometry (\<lambda>k. if k < 1200 then 9999 / 10000 else c) 0)) ! Suc 0 = 14999 / 1000000"
  using dustGeometry_particle(1,2,4,5) [of 0 "\<lambda>k. if k < 1200 then 9999 / 10000 else c" 0]
  by simp_all

theorem dust_reset_policy_witness:
  "dust_mounted (fst (AtmosphericEffects_mount (\<lambda>k. if k < 1200 then 9999 / 10000 else 1 / 10) 0))
   \<and> unit_draws (\<lambda>k. if k < 1200 then 9999 / 10000 else 1 / 10)
   \<and> \<bar>dust_positions (fst (AtmosphericEffects_mount (\<lambda>k. if k < 1200 then 9999 / 10000 else 1 / 10) 0)) ! 0
        + dust_velocities (fst (AtmosphericEffects_mount (\<lambda>k. if k < 1200 then 9999 / 10000 else 1 / 10) 0)) ! 0\<bar> > 40
   \<and> dust_positions (fst (AtmosphericEffects_useFrame (\<lambda>k. if k < 1200 then 9999 / 10000 else 1 / 10) 0 (1 / 60)
         (AtmosphericEffects_mount (\<lambda>k. if k < 1200 then 9999 / 10000 else 1 / 10) 0))) ! 0 = - 32
   \<and> snd (AtmosphericEffects_mount (\<lambda>k. if k < 1200 then 9999 / 10000 else 1 / 10) 0)
       < snd (AtmosphericEffects_useFrame (\<lambda>k. if k < 1200 then 9999 / 10000 else 1 / 10) 0 (1 / 60)
         (AtmosphericEffects_mount (\<lambda>k. if k < 1200 then 9999 / 10000 else 1 / 10) 0))
   \<and> dust_positions (fst (AtmosphericEffects_mount (\<lambda>k. if k < 1200 then 9999 / 10000 else 1 / 10) 0)) ! 1
        + dust_velocities (fst (AtmosphericEffects_mount (\<lambda>k. if k < 1200 then 9999 / 10000 else 1 / 10) 0)) ! 1 > 45
   \<and> dust_positions (fst (AtmosphericEffects_useFrame (\<lambda>k. if k < 1200 then 9999 / 10000 else 1 / 10) 0 (1 / 60)
         (AtmosphericEffects_mount (\<lambda>k. if k < 1200 then 9999 / 10000 else 1 / 10) 0))) ! 1 = 5"
  using dust_reset_policy
    [of "AtmosphericEffects_mount (\<lambda>k. if k < 1200 then 9999 / 10000 else 1 / 10) 0" 0
        "\<lambda>k. if k < 1200 then 9999 / 10000 else 1 / 10" 0 "1 / 60"]
    dust_reset_policy
    [of "AtmosphericEffects_mount (\<lambda>k. if k < 1200 then 9999 / 10000 else 1 / 10) 0" 1
        "\<lambda>k. if k < 1200 then 9999 / 10000 else 1 / 10" 0 "1 / 60"]
  by (simp add: mount_dust mount_mounted mount_draws dustGeometry_lengths dustGeometry_high unit_draws_def)

lemma frame_first_x:
  assumes "dustRef (fst s) \<noteq> None" and "0 < length (dust_positions (fst s))"
  shows "dust_positions (fst (AtmosphericEffects_useFrame rnd elapsed delta s)) ! 0 =
     (if \<bar>dust_positions (fst s) ! 0 + dust_velocities (fst s) ! 0\<bar> > 40 then (rnd (snd s) - 0.5) * 80
      else dust_positions (fst s) ! 0 + dust_velocities (fst s) ! 0)"
proof -
  let ?vs = "dust_velocities (fst s)" and ?st = "(dust_positions (fst s), snd s)"
  have "fst (dust_loop rnd ?vs 0 ?st) ! 0 = fst (dust_body rnd ?vs 0 ?st) ! 0"
    using assms(2) dust_loop_before [of 0 3 rnd ?vs "dust_body rnd ?vs 0 ?st"]
    by (simp add: dust_loop.simps [of rnd ?vs 0 ?st])
  then show ?thesis
    using assms(2) dust_body_x [of 0 "dust_positions (fst s)" rnd ?vs "snd s"]
    by (simp add: frame_positions [OF assms(1)])
qed

text \<open>
  Claim C4 as stated fails for the height: with the same geometry and two random sources
  that differ after construction (every later draw 0.1, or every later draw 0.9), the
  particle whose height exceeds 45 gets height 5 under both, while its x coordinate, which
  exceeds 40, gets -32 under one and 32 under the other.
\<close>

theorem dust_height_reset_not_rerandomized:
  "dust_positions (fst (AtmosphericEffects_mount (\<lambda>k. if k < 1200 then 9999 / 10000 else 1 / 10) 0)) ! 1
     + dust_velocities (fst (AtmosphericEffects_mount (\<lambda>k. if k < 1200 then 9999 / 10000 else 1 / 10) 0)) ! 1 > 45
   \<and> dust_positions (fst (AtmosphericEffects_useFrame (\<lambda>k. if k < 1200 then 9999 / 10000 else 1 / 10) 0 (1 / 60)
         (AtmosphericEffects_mount (\<lambda>k. if k < 1200 then 9999 / 10000 else 1 / 10) 0))) ! 1 = 5
   \<and> dust_positions (fst (AtmosphericEffects_useFrame (\<lambda>k. if k < 1200 then 9999 / 10000 else 1 / 10) 0 (1 / 60)
         (AtmosphericEffects_mount (\<lambda>k. if k < 1200 then 9999 / 10000 else 1 / 10) 0))) ! 0 = - 32
   \<and> dust_positions (fst (AtmosphericEffects_mount (\<lambda>k. if k < 1200 then 9999 / 10000 else 9 / 10) 0)) ! 1
     + dust_velocities (fst (AtmosphericEffects_mount (\<lambda>k. if k < 1200 then 9999 / 10000 else 9 / 10) 0)) ! 1 > 45
   \<and> dust_positions (fst (AtmosphericEffects_useFrame (\<lambda>k. if k < 1200 then 9999 / 10000 else 9 / 10) 0 (1 / 60)
         (AtmosphericEffects_mount (\<lambda>k. if k < 1200 then 9999 / 10000 else 9 / 10) 0))) ! 1 = 5
   \<and> dust_positions (fst (AtmosphericEffects_useFrame (\<lambda>k. if k < 1200 then 9999 / 10000 else 9 / 10) 0 (1 / 60)
         (AtmosphericEffects_mount (\<lambda>k. if k < 1200 then 9999 / 10000 else 9 / 10) 0))) ! 0 = 32"
  using
    frame_height [of "AtmosphericEffects_mount (\<lambda>k. if k < 1200 then 9999 / 10000 else 1 / 10) 0" 1
        "\<lambda>k. if k < 1200 then 9999 / 10000 else 1 / 10" 0 "1 / 60"]
    frame_height [of "AtmosphericEffects_mount (\<lambda>k. if k < 1200 then 9999 / 10000 else 9 / 10) 0" 1
        "\<lambda>k. if k < 1200 then 9999 / 10000 else 9 / 10" 0 "1 / 60"]
    frame_first_x [of "AtmosphericEffects_mount (\<lambda>k. if k < 1200 then 9999 / 10000 else 1 / 10) 0"
        "\<lambda>k. if k < 1200 then 9999 / 10000 else 1 / 10" 0 "1 / 60"]
    frame_first_x [of "AtmosphericEffects_mount (\<lambda>k. if k < 1200 then 9999 / 10000 else 9 / 10) 0"
        "\<lambda>k. if k < 1200 then 9999 / 10000 else 9 / 10" 0 "1 / 60"]
  by (simp add: mount_dust mount_draws dustGeometry_lengths dustGeometry_high)

section \<open>Properties of the mesh generators\<close>

declare island_loop.simps [simp del] garden_loop.simps [simp del]

lemma island_zero: "island_loop 0 0 i vertices = vertices"
proof (induction "0::real" "0::real" i vertices rule: island_loop.induct)
  case (1 i vertices)
  have body: "island_body 0 0 i vertices = vertices"
    by (simp add: island_body_def Let_def)
  show ?case
  proof (cases "i < length vertices")
    case True
    with 1 body show ?thesis by (simp add: island_loop.simps [of 0 0 i vertices])
  next
    case False
    then show ?thesis by (simp add: island_loop.simps [of 0 0 i vertices])
  qed
qed

lemma length_garden_body [simp]: "length (garden_body a1 a2 a3 a4 i vertices) = length vertices"
  by (simp add: garden_body_def Let_def)

lemma length_garden_loop [simp]: "length (garden_loop a1 a2 a3 a4 i vertices) = length vertices"
  by (induction a1 a2 a3 a4 i vertices rule: garden_loop.induct)
     (simp add: garden_loop.simps)

lemma garden_loop_before:
  "m < i \<Longrightarrow> garden_loop a1 a2 a3 a4 i vertices ! m = vertices ! m"
proof (induction a1 a2 a3 a4 i vertices rule: garden_loop.induct)
  case (1 a1 a2 a3 a4 i vertices)
  show ?case
  proof (cases "i < length vertices")
    case True
    have "garden_body a1 a2 a3 a4 i vertices ! m = vertices ! m"
      using 1(2) by (simp add: garden_body_def Let_def)
    with True 1 show ?thesis by (simp add: garden_loop.simps [of a1 a2 a3 a4 i vertices])
  next
    case False
    then show ?thesis by (simp add: garden_loop.simps [of a1 a2 a3 a4 i vertices])
  qed
qed

lemma length_island_body [simp]: "length (island_body a1 a2 i vertices) = length vertices"
  by (simp add: island_body_def Let_def)

lemma island_loop_before:
  "m < i \<Longrightarrow> island_loop a1 a2 i vertices ! m = vertices ! m"
proof (induction a1 a2 i vertices rule: island_loop.induct)
  case (1 a1 a2 i vertices)
  show ?case
  proof (cases "i < length vertices")
    case True
    have "island_body a1 a2 i vertices ! m = vertices ! m"
      using 1(2) by (simp add: island_body_def Let_def)
    with True 1 show ?thesis by (simp add: island_loop.simps [of a1 a2 i vertices])
  next
    case False
    then show ?thesis by (simp add: island_loop.simps [of a1 a2 i vertices])
  qed
qed

lemma vertex_step:
  fixes i m :: nat
  assumes "i + 3 \<le> m"
  shows "(m - (i + 3)) mod 3 = (m - i) mod 3"
  using assms le_mod_geq [of 3 "m - i"] by simp

lemma island_cell:
  "i \<le> m \<Longrightarrow> m < length vertices \<Longrightarrow>
   island_loop a1 a2 i vertices ! m =
     (if (m - i) mod 3 = 1
      then vertices ! m
           + (sin (sqrt (vertices ! (m - 1) * vertices ! (m - 1)
                         + vertices ! (m + 1) * vertices ! (m + 1)) * 0.2) * a1
              + cos (vertices ! (m - 1) * 0.1) * a2)
      else vertices ! m)"
proof (induction a1 a2 i vertices rule: island_loop.induct)
  case (1 a1 a2 i vertices)
  from 1(2,3) have lt: "i < length vertices" by simp
  have unfold: "island_loop a1 a2 i vertices = island_loop a1 a2 (i + 3) (island_body a1 a2 i vertices)"
    using lt by (simp add: island_loop.simps [of a1 a2 i vertices])
  have body: "island_body a1 a2 i vertices =
      vertices[i + 1 := vertices ! (i + 1)
         + (sin (sqrt (vertices ! i * vertices ! i + vertices ! (i + 2) * vertices ! (i + 2)) * 0.2) * a1
            + cos (vertices ! i * 0.1) * a2)]"
    by (simp add: island_body_def Let_def)
  show ?case
  proof (cases "m < i + 3")
    case True
    then have "island_loop a1 a2 i vertices ! m = island_body a1 a2 i vertices ! m"
      unfolding unfold by (rule island_loop_before)
    moreover from True 1(2) have "m = i \<or> m = i + 1 \<or> m = i + 2" by auto
    ultimately show ?thesis using 1(3) unfolding body by auto
  next
    case False
    then have ge: "i + 3 \<le> m" by simp
    have cells: "island_body a1 a2 i vertices ! m = vertices ! m"
        "island_body a1 a2 i vertices ! (m - 1) = vertices ! (m - 1)"
        "island_body a1 a2 i vertices ! (m + 1) = vertices ! (m + 1)"
      using ge unfolding body by simp_all
    have "island_loop a1 a2 (i + 3) (island_body a1 a2 i vertices) ! m =
          (if (m - (i + 3)) mod 3 = 1
           then island_body a1 a2 i vertices ! m
                + (sin (sqrt (island_body a1 a2 i vertices ! (m - 1) * island_body a1 a2 i vertices ! (m - 1)
                              + island_body a1 a2 i vertices ! (m + 1) * island_body a1 a2 i vertices ! (m + 1)) * 0.2) * a1
                   + cos (island_body a1 a2 i vertices ! (m - 1) * 0.1) * a2)
           else island_body a1 a2 i vertices ! m)"
      using "1.IH" [OF lt ge] 1(3) by simp
    then show ?thesis
      unfolding unfold vertex_step [OF ge] cells .
  qed
qed

lemma garden_cell:
  "i \<le> m \<Longrightarrow> m < length vertices \<Longrightarrow>
   garden_loop a1 a2 a3 a4 i vertices ! m =
     (if (m - i) mod 3 = 1
      then sin (vertices ! (m - 1) * 0.1) * a1 + cos (vertices ! (m + 1) * 0.15) * a2
           + sin (vertices ! (m - 1) * 0.3 + vertices ! (m + 1) * 0.2) * a3
           + cos (vertices ! (m - 1) * 0.05 + vertices ! (m + 1) * 0.08) * a4
      else vertices ! m)"
proof (induction a1 a2 a3 a4 i vertices rule: garden_loop.induct)
  case (1 a1 a2 a3 a4 i vertices)
  from 1(2,3) have lt: "i < length vertices" by simp
  have unfold: "garden_loop a1 a2 a3 a4 i vertices
      = garden_loop a1 a2 a3 a4 (i + 3) (garden_body a1 a2 a3 a4 i vertices)"
    using lt by (simp add: garden_loop.simps [of a1 a2 a3 a4 i vertices])
  have body: "garden_body a1 a2 a3 a4 i vertices =
      vertices[i + 1 := sin (vertices ! i * 0.1) * a1 + cos (vertices ! (i + 2) * 0.15) * a2
           + sin (vertices ! i * 0.3 + vertices ! (i + 2) * 0.2) * a3
           + cos (vertices ! i * 0.05 + vertices ! (i + 2) * 0.08) * a4]"
    by (simp add: garden_body_def Let_def)
  show ?case
  proof (cases "m < i + 3")
    case True
    then have "garden_loop a1 a2 a3 a4 i vertices ! m = garden_body a1 a2 a3 a4 i vertices ! m"
      unfolding unfold by (rule garden_loop_before)
    moreover from True 1(2) have "m = i \<or> m = i + 1 \<or> m = i + 2" by auto
    ultimately show ?thesis using 1(3) unfolding body by auto
  next
    case False
    then have ge: "i + 3 \<le> m" by simp
    have cells: "garden_body a1 a2 a3 a4 i vertices ! m = vertices ! m"
        "garden_body a1 a2 a3 a4 i vertices ! (m - 1) = vertices ! (m - 1)"
        "garden_body a1 a2 a3 a4 i vertices ! (m + 1) = vertices ! (m + 1)"
      using ge unfolding body by simp_all
    have "garden_loop a1 a2 a3 a4 (i + 3) (garden_body a1 a2 a3 a4 i vertices) ! m =
          (if (m - (i + 3)) mod 3 = 1
           then sin (garden_body a1 a2 a3 a4 i vertices ! (m - 1) * 0.1) * a1
                + cos (garden_body a1 a2 a3 a4 i vertices ! (m + 1) * 0.15) * a2
                + sin (garden_body a1 a2 a3 a4 i vertices ! (m - 1) * 0.3
                       + garden_body a1 a2 a3 a4 i vertices ! (m + 1) * 0.2) * a3
                + cos (garden_body a1 a2 a3 a4 i vertices ! (m - 1) * 0.05
                       + garden_body a1 a2 a3 a4 i vertices ! (m + 1) * 0.08) * a4
           else garden_body a1 a2 a3 a4 i vertices ! m)"
      using "1.IH" [OF lt ge] 1(3) by simp
    then show ?thesis
      unfolding unfold vertex_step [OF ge] cells .
  qed
qed

lemma concat_blocks_length:
  assumes "\<And>i. i < n \<Longrightarrow> length (f i) = k"
  shows "length (concat (map f [0..<n])) = n * k"
  using assms by (induction n) simp_all

lemma concat_blocks_nth:
  assumes "\<And>i. i < n \<Longrightarrow> length (f i) = k" and "i < n" and "j < k"
  shows "concat (map f [0..<n]) ! (i * k + j) = f i ! j"
  using assms
proof (induction n)
  case 0
  then show ?case by simp
next
  case (Suc n)
  have len: "length (concat (map f [0..<n])) = n * k"
    by (rule concat_blocks_length) (simp add: Suc.prems(1))
  show ?case
  proof (cases "i < n")
    case True
    then have "i * k + j < n * k"
      using Suc.prems(3) by (metis add.commute less_le_trans mult_Suc mult_le_mono1 Suc_leI nat_add_left_cancel_less)
    with Suc True show ?thesis by (simp add: nth_append len)
  next
    case False
    with Suc.prems(2) have "i = n" by simp
    then show ?thesis by (simp add: nth_append len)
  qed
qed

lemma PlaneGeometry_rows:
  "PlaneGeometry width height widthSegments heightSegments =
     concat (map (\<lambda>iy. concat (map (\<lambda>ix. [real ix * (width / real widthSegments) - width / 2,
                                              - (real iy * (height / real heightSegments) - height / 2), 0])
                                     [0..<widthSegments + 1]))
                 [0..<heightSegments + 1])"
  unfolding PlaneGeometry_def Let_def by (rule refl)

lemma PlaneGeometry_row_length:
  "length (concat (map (\<lambda>ix. [g ix, c, 0::real]) [0..<n])) = n * 3"
  by (rule concat_blocks_length) simp

lemma PlaneGeometry_vertex:
  assumes "iy < heightSegments + 1" and "ix < widthSegments + 1" and "j < 3"
  shows "PlaneGeometry width height widthSegments heightSegments
           ! (iy * ((widthSegments + 1) * 3) + (ix * 3 + j)) =
         [real ix * (width / real widthSegments) - width / 2,
          - (real iy * (height / real heightSegments) - height / 2), 0] ! j"
proof -
  let ?cell = "\<lambda>iy ix. [real ix * (width / real widthSegments) - width / 2,
                         - (real iy * (height / real heightSegments) - height / 2), 0::real]"
  let ?row = "\<lambda>iy. concat (map (?cell iy) [0..<widthSegments + 1])"
  have rl: "length (?row i) = (widthSegments + 1) * 3" for i
    by (rule PlaneGeometry_row_length)
  have "ix * 3 + j < (widthSegments + 1) * 3" using assms by simp
  then have "concat (map ?row [0..<heightSegments + 1]) ! (iy * ((widthSegments + 1) * 3) + (ix * 3 + j))
               = ?row iy ! (ix * 3 + j)"
    using assms(1) rl by (intro concat_blocks_nth)
  also have "\<dots> = ?cell iy ix ! j"
    using assms by (intro concat_blocks_nth) simp_all
  finally show ?thesis unfolding PlaneGeometry_rows .
qed

lemma PlaneGeometry_size:
  "length (PlaneGeometry width height widthSegments heightSegments)
     = (heightSegments + 1) * ((widthSegments + 1) * 3)"
  unfolding PlaneGeometry_rows
  by (rule concat_blocks_length) (rule PlaneGeometry_row_length)

lemma PlaneGeometry_cells:
  "PlaneGeometry 30 30 32 32 ! 0 = - 15" "PlaneGeometry 30 30 32 32 ! 1 = 15"
  "PlaneGeometry 30 30 32 32 ! 2 = 0"
  "PlaneGeometry 30 30 32 32 ! 99 = - 15" "PlaneGeometry 30 30 32 32 ! 100 = 225 / 16"
  "PlaneGeometry 30 30 32 32 ! 101 = 0"
  "length (PlaneGeometry 30 30 32 32) = 3267"
  using PlaneGeometry_vertex [of 0 32 0 32 0 30 30] PlaneGeometry_vertex [of 0 32 0 32 1 30 30]
    PlaneGeometry_vertex [of 0 32 0 32 2 30 30] PlaneGeometry_vertex [of 1 32 0 32 0 30 30]
    PlaneGeometry_vertex [of 1 32 0 32 1 30 30] PlaneGeometry_vertex [of 1 32 0 32 2 30 30]
    PlaneGeometry_size [of 30 30 32 32]
  by (simp_all add: numeral_2_eq_2)


lemma gardenGeometry_height:
  assumes "m < length vertices" and "m mod 3 = 1"
  shows "gardenGeometry vertices ! m =
           sin (vertices ! (m - 1) * 0.1) * 0.3 + cos (vertices ! (m + 1) * 0.15) * 0.2
           + sin (vertices ! (m - 1) * 0.3 + vertices ! (m + 1) * 0.2) * 0.1
           + cos (vertices ! (m - 1) * 0.05 + vertices ! (m + 1) * 0.08) * 0.15"
  using assms garden_cell [of 0 m vertices "0.3" "0.2" "0.1" "0.15"]
  by (simp add: gardenGeometry_def garden_displace_def)

lemma islandGeometry_height:
  assumes "m < length vertices" and "m mod 3 = 1"
  shows "islandGeometry vertices ! m =
           vertices ! m
           + (sin (sqrt (vertices ! (m - 1) * vertices ! (m - 1)
                         + vertices ! (m + 1) * vertices ! (m + 1)) * 0.2) * 0.3
              + cos (vertices ! (m - 1) * 0.1) * 0.2)"
  using assms island_cell [of 0 m vertices "0.3" "0.2"]
  by (simp add: islandGeometry_def island_displace_def)

lemma abs_sum4:
  fixes p q r t :: real
  shows "\<bar>p\<bar> \<le> a \<Longrightarrow> \<bar>q\<bar> \<le> b \<Longrightarrow> \<bar>r\<bar> \<le> c \<Longrightarrow> \<bar>t\<bar> \<le> d \<Longrightarrow> \<bar>p + q + r + t\<bar> \<le> a + b + c + d"
  by linarith

lemma elevation_bound:
  "\<bar>sin a * 0.3 + cos b * 0.2 + sin c * 0.1 + cos d * 0.15\<bar> \<le> (3 / 4 :: real)"
proof -
  have "\<bar>sin a * 0.3 + cos b * 0.2 + sin c * 0.1 + cos d * 0.15\<bar> \<le> (0.3 + 0.2 + 0.1 + 0.15 :: real)"
    by (intro abs_sum4 abs_sin_scaled abs_cos_scaled) simp_all
  then show ?thesis by simp
qed

lemma PlaneGeometry_cell_2: "PlaneGeometry 30 30 32 32 ! Suc (Suc 0) = 0"
  using PlaneGeometry_cells(3) by (simp add: numeral_2_eq_2)

lemma island_zero_noise: "island_displace 0 0 vertices = vertices"
  by (simp add: island_displace_def island_zero)

text \<open>
  Claim C7. The generator of the claim adds a displacement to the height the base shape
  has, \<open>y' = y + noise\<close>, so that without noise it returns the base shape.
  \<open>islandGeometry\<close> is of that form (\<open>islandGeometry_height\<close>, \<open>island_zero_noise\<close>).
  \<open>gardenGeometry\<close> is not. Its base shape, the position array of
  \<open>PlaneGeometry(30, 30, 32, 32)\<close>, lies in the plane \<open>z = 0\<close> with y running from 15 down
  to -15; the loop reads z, which is 0 at every vertex, as the second ground coordinate and
  assigns the elevation to y. Vertex 0, at \<open>(-15, 15, 0)\<close>, and vertex 33, one row further
  at \<open>(-15, 225 / 16, 0)\<close>, both end with the same y, the elevation at \<open>x = -15, z = 0\<close>:
  a value within \<open>3 / 4\<close> of zero, and not the base y plus the elevation.
\<close>

theorem gardenGeometry_overwrites_plane_coordinate:
  "PlaneGeometry 30 30 32 32 ! 0 = - 15
   \<and> PlaneGeometry 30 30 32 32 ! 1 = 15
   \<and> PlaneGeometry 30 30 32 32 ! 2 = 0
   \<and> PlaneGeometry 30 30 32 32 ! 99 = - 15
   \<and> PlaneGeometry 30 30 32 32 ! 100 = 225 / 16
   \<and> PlaneGeometry 30 30 32 32 ! 101 = 0
   \<and> gardenGeometry (PlaneGeometry 30 30 32 32) ! 1 =
       sin (- 15 * 0.1) * 0.3 + cos (0 * 0.15) * 0.2
       + sin (- 15 * 0.3 + 0 * 0.2) * 0.1 + cos (- 15 * 0.05 + 0 * 0.08) * 0.15
   \<and> gardenGeometry (PlaneGeometry 30 30 32 32) ! 100 = gardenGeometry (PlaneGeometry 30 30 32 32) ! 1
   \<and> \<bar>gardenGeometry (PlaneGeometry 30 30 32 32) ! 1\<bar> \<le> 3 / 4
   \<and> gardenGeometry (PlaneGeometry 30 30 32 32) ! 1 \<noteq>
       PlaneGeometry 30 30 32 32 ! 1
       + (sin (- 15 * 0.1) * 0.3 + cos (0 * 0.15) * 0.2
          + sin (- 15 * 0.3 + 0 * 0.2) * 0.1 + cos (- 15 * 0.05 + 0 * 0.08) * 0.15)"
proof -
  let ?P = "PlaneGeometry 30 30 32 32"
  let ?e = "sin (- 15 * 0.1) * 0.3 + cos (0 * 0.15) * 0.2
       + sin (- 15 * 0.3 + 0 * 0.2) * 0.1 + cos (- 15 * 0.05 + 0 * 0.08) * 0.15 :: real"
  have y0: "gardenGeometry ?P ! 1 = ?e"
    using gardenGeometry_height [of 1 ?P] by (simp add: PlaneGeometry_cells PlaneGeometry_cell_2)
  have y33: "gardenGeometry ?P ! 100 = ?e"
    using gardenGeometry_height [of 100 ?P] by (simp add: PlaneGeometry_cells)
  have b: "\<bar>gardenGeometry ?P ! 1\<bar> \<le> 3 / 4"
    unfolding y0 by (rule elevation_bound)
  have ne: "gardenGeometry ?P ! 1 \<noteq> ?P ! 1 + ?e"
    unfolding y0 PlaneGeometry_cells by simp
  show ?thesis
    using PlaneGeometry_cells(1-6) y0 y33 b ne by (intro conjI) simp_all
qed

section \<open>Properties of the audio buffers\<close>

declare fill_loop.simps [simp del]

lemma fill_loop_unfold:
  "i < bufferSize \<Longrightarrow>
   fill_loop sample bufferSize i (data, k) =
     fill_loop sample bufferSize (Suc i) (data[i := fst (sample i k)], snd (sample i k))"
  by (simp add: fill_loop.simps [of sample bufferSize i "(data, k)"] split_def Let_def)

lemma fill_loop_length: "length (fst (fill_loop sample bufferSize i s)) = length (fst s)"
proof (induction sample bufferSize i s rule: fill_loop.induct)
  case (1 sample bufferSize i s)
  obtain data k where s: "s = (data, k)" by (cases s)
  show ?case
  proof (cases "i < bufferSize")
    case True
    then show ?thesis
      using "1.IH" [OF True s [symmetric] refl, of "fst (sample i k)" "snd (sample i k)"]
      by (simp add: s fill_loop_unfold)
  next
    case False
    then show ?thesis by (simp add: fill_loop.simps [of sample bufferSize i s])
  qed
qed

lemma fill_loop_before:
  "m < i \<Longrightarrow> fst (fill_loop sample bufferSize i s) ! m = fst s ! m"
proof (induction sample bufferSize i s rule: fill_loop.induct)
  case (1 sample bufferSize i s)
  obtain data k where s: "s = (data, k)" by (cases s)
  show ?case
  proof (cases "i < bufferSize")
    case True
    then show ?thesis
      using "1.IH" [OF True s [symmetric] refl, of "fst (sample i k)" "snd (sample i k)"] "1.prems"
      by (simp add: s fill_loop_unfold)
  next
    case False
    then show ?thesis by (simp add: fill_loop.simps [of sample bufferSize i s])
  qed
qed

lemma fill_loop_nth:
  "i \<le> m \<Longrightarrow> m < bufferSize \<Longrightarrow> m < length (fst s) \<Longrightarrow>
   \<exists>k. fst (fill_loop sample bufferSize i s) ! m = fst (sample m k)"
proof (induction sample bufferSize i s rule: fill_loop.induct)
  case (1 sample bufferSize i s)
  obtain data k where s: "s = (data, k)" by (cases s)
  from "1.prems" have lt: "i < bufferSize" by simp
  note IH = "1.IH" [OF lt s [symmetric] refl, of "fst (sample i k)" "snd (sample i k)"]
  show ?case
  proof (cases "m = i")
    case True
    have "fst (fill_loop sample bufferSize i s) ! m = fst (sample m k)"
      using "1.prems" True lt by (simp add: s fill_loop_unfold fill_loop_before)
    then show ?thesis by blast
  next
    case False
    with "1.prems" have "Suc i \<le> m" by simp
    with IH "1.prems" show ?thesis by (simp add: s fill_loop_unfold lt)
  qed
qed


lemma abs_sum3:
  fixes a b c :: real
  shows "\<bar>a\<bar> \<le> x \<Longrightarrow> \<bar>b\<bar> \<le> y \<Longrightarrow> \<bar>c\<bar> \<le> z \<Longrightarrow> \<bar>a + b + c\<bar> \<le> x + y + z"
  by linarith

lemma abs_scaled:
  fixes x a :: real
  shows "\<bar>x\<bar> \<le> 1 \<Longrightarrow> 0 \<le> a \<Longrightarrow> \<bar>x * a\<bar> \<le> a"
  by (simp add: abs_mult mult_left_le_one_le)

lemma water_sample_bound:
  assumes "unit_draws rnd"
  shows "\<bar>fst (water_sample rnd i k)\<bar> \<le> 0.3"
proof -
  from assms have r: "0 \<le> rnd k" "rnd k < 1" "0 \<le> rnd (Suc k)" "rnd (Suc k) < 1"
    by (simp_all add: unit_draws_def)
  have w: "\<bar>(rnd k * 2 - 1) * 0.5\<bar> \<le> 0.5" using r(1,2) by (simp add: abs_le_iff)
  have f: "\<bar>sin (real i * 0.001) * 0.3\<bar> \<le> (0.3::real)" by (rule abs_sin_scaled) simp
  have "\<bar>sin (real i * 0.01) * (rnd (Suc k) * 0.2)\<bar> \<le> rnd (Suc k) * 0.2"
    by (rule abs_sin_scaled) (use r(3) in simp)
  with r(4) have b: "\<bar>sin (real i * 0.01) * rnd (Suc k) * 0.2\<bar> \<le> 0.2"
    by (simp add: mult.assoc)
  have "\<bar>(rnd k * 2 - 1) * 0.5 + sin (real i * 0.001) * 0.3 + sin (real i * 0.01) * rnd (Suc k) * 0.2\<bar> \<le> 1"
    using abs_sum3 [OF w f b] by simp
  then have "\<bar>((rnd k * 2 - 1) * 0.5 + sin (real i * 0.001) * 0.3 + sin (real i * 0.01) * rnd (Suc k) * 0.2) * 0.3\<bar> \<le> 0.3"
    by (rule abs_scaled) simp
  then show ?thesis
    by (simp add: water_sample_def Math_random_def Let_def)
qed








lemma createSound_node:
  "fst (createSound sample seconds st) = length (sources st)"
  "sources (snd (createSound sample seconds st)) =
     sources st @ [\<lparr>buffer = fst (fill_loop sample (sampleRate st * seconds) 0
                                  (createBuffer (sampleRate st * seconds), draws st)),
                    loop = True\<rparr>]"
  "calls (snd (createSound sample seconds st)) = calls st"
  by (simp_all add: createSound_def createBufferSource_def Let_def split_def)

lemma createSound_buffer:
  "buffer (sources (snd (createSound sample seconds st)) ! fst (createSound sample seconds st)) =
     fst (fill_loop sample (sampleRate st * seconds) 0
            (createBuffer (sampleRate st * seconds), draws st))"
  by (simp add: createSound_node)

lemma createSound_length:
  "length (buffer (sources (snd (createSound sample seconds st)) ! fst (createSound sample seconds st)))
     = sampleRate st * seconds"
  by (simp add: createSound_buffer fill_loop_length createBuffer_def)

lemma createSound_sample:
  assumes "i < sampleRate st * seconds"
  shows "\<exists>k. buffer (sources (snd (createSound sample seconds st)) ! fst (createSound sample seconds st)) ! i
              = fst (sample i k)"
  using assms fill_loop_nth [of 0 i "sampleRate st * seconds"
      "(createBuffer (sampleRate st * seconds), draws st)" sample]
  by (simp add: createSound_buffer createBuffer_def)





text \<open>
  Claim C6. The buffer of the water voice has exactly \<open>4 * sampleRate\<close> samples, and every
  sample \<open>(whiteNoise * 0.5 + flowPattern + bubbleEffect) * 0.3\<close> lies in \<open>[-1, 1]\<close> when the
  draws lie in \<open>[0, 1)\<close>.
\<close>

theorem water_buffer:
  assumes "unit_draws rnd"
  shows "length (created_buffer (createWaterSound rnd st)) = 4 * sampleRate st
       \<and> (\<forall>i < 4 * sampleRate st.
            - 1 \<le> created_buffer (createWaterSound rnd st) ! i
            \<and> created_buffer (createWaterSound rnd st) ! i \<le> 1)"
proof (intro conjI allI impI)
  show "length (created_buffer (createWaterSound rnd st)) = 4 * sampleRate st"
    by (simp add: created_buffer_def createWaterSound_def createSound_length)
next
  fix i assume "i < 4 * sampleRate st"
  then obtain k where
    k: "created_buffer (createWaterSound rnd st) ! i = fst (water_sample rnd i k)"
    using createSound_sample [of i st 4 "water_sample rnd"]
    by (auto simp: created_buffer_def createWaterSound_def mult.commute)
  from water_sample_bound [OF assms, of i k]
  have b: "- 1 \<le> fst (water_sample rnd i k) \<and> fst (water_sample rnd i k) \<le> 1"
    by linarith
  from b show "- 1 \<le> created_buffer (createWaterSound rnd st) ! i"
    unfolding k by simp
  from b show "created_buffer (createWaterSound rnd st) ! i \<le> 1"
    unfolding k by simp
qed

theorem water_buffer_witness:
  "unit_draws (\<lambda>k. 1 / 2)
   \<and> length (created_buffer (createWaterSound (\<lambda>k. 1 / 2) (AmbientSounds_initial 44100 Running))) = 176400
   \<and> - 1 \<le> created_buffer (createWaterSound (\<lambda>k. 1 / 2) (AmbientSounds_initial 44100 Running)) ! 0
   \<and> created_buffer (createWaterSound (\<lambda>k. 1 / 2) (AmbientSounds_initial 44100 Running)) ! 0 \<le> 1"
  using water_buffer [of "\<lambda>k. 1 / 2" "AmbientSounds_initial 44100 Running"]
  by (auto simp: unit_draws_def AmbientSounds_initial_def)



section \<open>Properties of the audio components\<close>

text \<open>
  The guard of the start callbacks tests the values its render captured: with no captured
  context, or with a captured \<open>isPlaying = true\<close>, the call changes nothing.
\<close>

lemma start_guard_captured:
  assumes "r_audioContext c = None \<or> r_isPlaying c"
  shows "startAmbientSounds rnd c st = st" and "startStreamAudio rnd c st' = st'"
  using assms by (simp_all add: startAmbientSounds_def startStreamAudio_def)

text \<open>
  The life of a mounted component, step by step. Mount creates the context; the render
  that follows starts the three sources and sets \<open>isPlaying\<close>; because the start effect
  depends on the start callback, and that on \<open>isPlaying\<close>, the next render runs the
  effect's cleanup, which stops the three sources just started.
\<close>

lemma AmbientSounds_first_renders:
  "calls (AmbientSounds_mount (\<lambda>k. 1 / 2) (AmbientSounds_initial 44100 Suspended)) = []"
  "calls (AmbientSounds_rerender (\<lambda>k. 1 / 2) (AmbientSounds_mount (\<lambda>k. 1 / 2) (AmbientSounds_initial 44100 Suspended))) = [Start 0, Start 1, Start 2]"
  "calls (AmbientSounds_rerender (\<lambda>k. 1 / 2) (AmbientSounds_rerender (\<lambda>k. 1 / 2) (AmbientSounds_mount (\<lambda>k. 1 / 2) (AmbientSounds_initial 44100 Suspended)))) = [Start 0, Start 1, Start 2, Stop 0, Stop 1, Stop 2]"
  by (simp_all add: AmbientSounds_unmount_def AmbientSounds_rerender_def AmbientSounds_mount_def
        AmbientSounds_initial_def AmbientSounds_effect_def AmbientSounds_cleanup_def
        startAmbientSounds_def stopAmbientSounds_def current_render_def initAudio_def
        closeAudio_def createWaterSound_def createBirdSound_def createBreezeSound_def
        createSound_def createBufferSource_def source_start_def source_stop_def resume_def
        Let_def split_def)

text \<open>
  Claim C9. Mount, the render after the context is created, the render after
  \<open>setIsPlaying(true)\<close>, unmount: the teardown at unmount calls \<open>stop()\<close> on the three sources
  that the cleanup of the previous render had already stopped, so each started source has
  \<open>stop()\<close> invoked twice. Left mounted instead, the component renders again (the cleanup
  has set \<open>isPlaying\<close> back to false): that render stops the same three sources a second
  time and starts three new ones. \<open>StreamAudio\<close> does the same.
\<close>

theorem stop_invoked_twice:
  "calls (AmbientSounds_unmount (AmbientSounds_rerender (\<lambda>k. 1 / 2) (AmbientSounds_rerender (\<lambda>k. 1 / 2) (AmbientSounds_mount (\<lambda>k. 1 / 2) (AmbientSounds_initial 44100 Suspended)))))
     = [Start 0, Start 1, Start 2, Stop 0, Stop 1, Stop 2, Stop 0, Stop 1, Stop 2]
   \<and> count_list (calls (AmbientSounds_unmount (AmbientSounds_rerender (\<lambda>k. 1 / 2) (AmbientSounds_rerender (\<lambda>k. 1 / 2) (AmbientSounds_mount (\<lambda>k. 1 / 2) (AmbientSounds_initial 44100 Suspended)))))) (Stop 0) = 2
   \<and> calls (AmbientSounds_rerender (\<lambda>k. 1 / 2) (AmbientSounds_rerender (\<lambda>k. 1 / 2) (AmbientSounds_rerender (\<lambda>k. 1 / 2) (AmbientSounds_mount (\<lambda>k. 1 / 2) (AmbientSounds_initial 44100 Suspended)))))
       = [Start 0, Start 1, Start 2, Stop 0, Stop 1, Stop 2, Stop 0, Stop 1, Stop 2,
          Start 3, Start 4, Start 5]
   \<and> calls (StreamAudio_unmount (StreamAudio_rerender (\<lambda>k. 1 / 2) (StreamAudio_rerender (\<lambda>k. 1 / 2) (StreamAudio_mount (\<lambda>k. 1 / 2) (StreamAudio_initial 44100 Suspended)))))
       = [Start 0, Start 1, Start 2, Stop 0, Stop 1, Stop 2, Stop 0, Stop 1, Stop 2]
   \<and> count_list (calls (StreamAudio_unmount (StreamAudio_rerender (\<lambda>k. 1 / 2) (StreamAudio_rerender (\<lambda>k. 1 / 2) (StreamAudio_mount (\<lambda>k. 1 / 2) (StreamAudio_initial 44100 Suspended)))))) (Stop 0) = 2"
proof -
  have a: "calls (AmbientSounds_unmount (AmbientSounds_rerender (\<lambda>k. 1 / 2) (AmbientSounds_rerender (\<lambda>k. 1 / 2) (AmbientSounds_mount (\<lambda>k. 1 / 2) (AmbientSounds_initial 44100 Suspended)))))
     = [Start 0, Start 1, Start 2, Stop 0, Stop 1, Stop 2, Stop 0, Stop 1, Stop 2]"
    by (simp add: AmbientSounds_unmount_def AmbientSounds_rerender_def AmbientSounds_mount_def
        AmbientSounds_initial_def AmbientSounds_effect_def AmbientSounds_cleanup_def
        startAmbientSounds_def stopAmbientSounds_def current_render_def initAudio_def
        closeAudio_def createWaterSound_def createBirdSound_def createBreezeSound_def
        createSound_def createBufferSource_def source_start_def source_stop_def resume_def
        Let_def split_def)
  have b: "calls (AmbientSounds_rerender (\<lambda>k. 1 / 2) (AmbientSounds_rerender (\<lambda>k. 1 / 2) (AmbientSounds_rerender (\<lambda>k. 1 / 2) (AmbientSounds_mount (\<lambda>k. 1 / 2) (AmbientSounds_initial 44100 Suspended)))))
       = [Start 0, Start 1, Start 2, Stop 0, Stop 1, Stop 2, Stop 0, Stop 1, Stop 2,
          Start 3, Start 4, Start 5]"
    by (simp add: AmbientSounds_unmount_def AmbientSounds_rerender_def AmbientSounds_mount_def
        AmbientSounds_initial_def AmbientSounds_effect_def AmbientSounds_cleanup_def
        startAmbientSounds_def stopAmbientSounds_def current_render_def initAudio_def
        closeAudio_def createWaterSound_def createBirdSound_def createBreezeSound_def
        createSound_def createBufferSource_def source_start_def source_stop_def resume_def
        Let_def split_def)
  have c: "calls (StreamAudio_unmount (StreamAudio_rerender (\<lambda>k. 1 / 2) (StreamAudio_rerender (\<lambda>k. 1 / 2) (StreamAudio_mount (\<lambda>k. 1 / 2) (StreamAudio_initial 44100 Suspended)))))
       = [Start 0, Start 1, Start 2, Stop 0, Stop 1, Stop 2, Stop 0, Stop 1, Stop 2]"
    by (simp add: StreamAudio_unmount_def StreamAudio_rerender_def StreamAudio_mount_def
        StreamAudio_initial_def StreamAudio_effect_def StreamAudio_cleanup_def
        startStreamAudio_def stopStreamAudio_def current_render_def initAudio_def
        closeAudio_def createStreamSound_def createBubbleSound_def createGentleFlowSound_def
        createSound_def createBufferSource_def source_start_def source_stop_def resume_def
        Let_def split_def)
  show ?thesis
    unfolding a b c by simp
qed

text \<open>
  Claim C10. The auto-start and the interaction listener of one render share one start
  callback, whose guard reads the \<open>isPlaying = false\<close> that render captured. After the
  auto-start has started sources 0 to 2 and set \<open>isPlaying\<close>, a click that reaches the
  listener of that render passes the guard: sources 3 to 5 are created and started and take
  the place of the first three in the refs, so that unmount stops sources 3 to 5 only and
  sources 0 to 2 are never stopped. \<open>StreamAudio\<close> does the same.
\<close>

theorem start_repeated_from_same_render:
  "isPlaying (AmbientSounds_rerender (\<lambda>k. 1 / 2) (AmbientSounds_mount (\<lambda>k. 1 / 2) (AmbientSounds_initial 44100 Suspended)))
   \<and> calls (AmbientSounds_rerender (\<lambda>k. 1 / 2) (AmbientSounds_mount (\<lambda>k. 1 / 2) (AmbientSounds_initial 44100 Suspended))) = [Start 0, Start 1, Start 2]
   \<and> waterSource (AmbientSounds_rerender (\<lambda>k. 1 / 2) (AmbientSounds_mount (\<lambda>k. 1 / 2) (AmbientSounds_initial 44100 Suspended))) = Some 0
   \<and> handler (AmbientSounds_rerender (\<lambda>k. 1 / 2) (AmbientSounds_mount (\<lambda>k. 1 / 2) (AmbientSounds_initial 44100 Suspended))) = Some \<lparr>r_audioContext = Some (), r_isPlaying = False\<rparr>
   \<and> calls (AmbientSounds_click (\<lambda>k. 1 / 2) (AmbientSounds_rerender (\<lambda>k. 1 / 2) (AmbientSounds_mount (\<lambda>k. 1 / 2) (AmbientSounds_initial 44100 Suspended))))
       = [Start 0, Start 1, Start 2, Start 3, Start 4, Start 5]
   \<and> waterSource (AmbientSounds_click (\<lambda>k. 1 / 2) (AmbientSounds_rerender (\<lambda>k. 1 / 2) (AmbientSounds_mount (\<lambda>k. 1 / 2) (AmbientSounds_initial 44100 Suspended)))) = Some 3
   \<and> calls (AmbientSounds_unmount (AmbientSounds_click (\<lambda>k. 1 / 2) (AmbientSounds_rerender (\<lambda>k. 1 / 2) (AmbientSounds_mount (\<lambda>k. 1 / 2) (AmbientSounds_initial 44100 Suspended)))))
       = [Start 0, Start 1, Start 2, Start 3, Start 4, Start 5, Stop 3, Stop 4, Stop 5]
   \<and> isPlaying (StreamAudio_rerender (\<lambda>k. 1 / 2) (StreamAudio_mount (\<lambda>k. 1 / 2) (StreamAudio_initial 44100 Suspended)))
   \<and> calls (StreamAudio_click (\<lambda>k. 1 / 2) (StreamAudio_rerender (\<lambda>k. 1 / 2) (StreamAudio_mount (\<lambda>k. 1 / 2) (StreamAudio_initial 44100 Suspended))))
       = [Start 0, Start 1, Start 2, Start 3, Start 4, Start 5]
   \<and> calls (StreamAudio_unmount (StreamAudio_click (\<lambda>k. 1 / 2) (StreamAudio_rerender (\<lambda>k. 1 / 2) (StreamAudio_mount (\<lambda>k. 1 / 2) (StreamAudio_initial 44100 Suspended)))))
       = [Start 0, Start 1, Start 2, Start 3, Start 4, Start 5, Stop 3, Stop 4, Stop 5]"
proof -
  have a: "isPlaying (AmbientSounds_rerender (\<lambda>k. 1 / 2) (AmbientSounds_mount (\<lambda>k. 1 / 2) (AmbientSounds_initial 44100 Suspended))) \<and> calls (AmbientSounds_rerender (\<lambda>k. 1 / 2) (AmbientSounds_mount (\<lambda>k. 1 / 2) (AmbientSounds_initial 44100 Suspended))) = [Start 0, Start 1, Start 2] \<and> waterSource (AmbientSounds_rerender (\<lambda>k. 1 / 2) (AmbientSounds_mount (\<lambda>k. 1 / 2) (AmbientSounds_initial 44100 Suspended))) = Some 0
      \<and> handler (AmbientSounds_rerender (\<lambda>k. 1 / 2) (AmbientSounds_mount (\<lambda>k. 1 / 2) (AmbientSounds_initial 44100 Suspended))) = Some \<lparr>r_audioContext = Some (), r_isPlaying = False\<rparr>"
    by (simp add: AmbientSounds_click_def AmbientSounds_handleInteraction_def
        AmbientSounds_unmount_def AmbientSounds_rerender_def AmbientSounds_mount_def
        AmbientSounds_initial_def AmbientSounds_effect_def AmbientSounds_cleanup_def
        startAmbientSounds_def stopAmbientSounds_def current_render_def initAudio_def
        closeAudio_def createWaterSound_def createBirdSound_def createBreezeSound_def
        createSound_def createBufferSource_def source_start_def source_stop_def resume_def
        Let_def split_def)
  have b: "calls (AmbientSounds_click (\<lambda>k. 1 / 2) (AmbientSounds_rerender (\<lambda>k. 1 / 2) (AmbientSounds_mount (\<lambda>k. 1 / 2) (AmbientSounds_initial 44100 Suspended))))
       = [Start 0, Start 1, Start 2, Start 3, Start 4, Start 5]
     \<and> waterSource (AmbientSounds_click (\<lambda>k. 1 / 2) (AmbientSounds_rerender (\<lambda>k. 1 / 2) (AmbientSounds_mount (\<lambda>k. 1 / 2) (AmbientSounds_initial 44100 Suspended)))) = Some 3"
    by (simp add: AmbientSounds_click_def AmbientSounds_handleInteraction_def
        AmbientSounds_unmount_def AmbientSounds_rerender_def AmbientSounds_mount_def
        AmbientSounds_initial_def AmbientSounds_effect_def AmbientSounds_cleanup_def
        startAmbientSounds_def stopAmbientSounds_def current_render_def initAudio_def
        closeAudio_def createWaterSound_def createBirdSound_def createBreezeSound_def
        createSound_def createBufferSource_def source_start_def source_stop_def resume_def
        Let_def split_def)
  have c: "calls (AmbientSounds_unmount (AmbientSounds_click (\<lambda>k. 1 / 2) (AmbientSounds_rerender (\<lambda>k. 1 / 2) (AmbientSounds_mount (\<lambda>k. 1 / 2) (AmbientSounds_initial 44100 Suspended)))))
       = [Start 0, Start 1, Start 2, Start 3, Start 4, Start 5, Stop 3, Stop 4, Stop 5]"
    by (simp add: AmbientSounds_click_def AmbientSounds_handleInteraction_def
        AmbientSounds_unmount_def AmbientSounds_rerender_def AmbientSounds_mount_def
        AmbientSounds_initial_def AmbientSounds_effect_def AmbientSounds_cleanup_def
        startAmbientSounds_def stopAmbientSounds_def current_render_def initAudio_def
        closeAudio_def createWaterSound_def createBirdSound_def createBreezeSound_def
        createSound_def createBufferSource_def source_start_def source_stop_def resume_def
        Let_def split_def)
  have d: "isPlaying (StreamAudio_rerender (\<lambda>k. 1 / 2) (StreamAudio_mount (\<lambda>k. 1 / 2) (StreamAudio_initial 44100 Suspended)))
     \<and> calls (StreamAudio_click (\<lambda>k. 1 / 2) (StreamAudio_rerender (\<lambda>k. 1 / 2) (StreamAudio_mount (\<lambda>k. 1 / 2) (StreamAudio_initial 44100 Suspended))))
       = [Start 0, Start 1, Start 2, Start 3, Start 4, Start 5]"
    by (simp add: StreamAudio_click_def StreamAudio_handleInteraction_def
        StreamAudio_unmount_def StreamAudio_rerender_def StreamAudio_mount_def
        StreamAudio_initial_def StreamAudio_effect_def StreamAudio_cleanup_def
        startStreamAudio_def stopStreamAudio_def current_render_def initAudio_def
        closeAudio_def createStreamSound_def createBubbleSound_def createGentleFlowSound_def
        createSound_def createBufferSource_def source_start_def source_stop_def resume_def
        Let_def split_def)
  have e: "calls (StreamAudio_unmount (StreamAudio_click (\<lambda>k. 1 / 2) (StreamAudio_rerender (\<lambda>k. 1 / 2) (StreamAudio_mount (\<lambda>k. 1 / 2) (StreamAudio_initial 44100 Suspended)))))
       = [Start 0, Start 1, Start 2, Start 3, Start 4, Start 5, Stop 3, Stop 4, Stop 5]"
    by (simp add: StreamAudio_click_def StreamAudio_handleInteraction_def
        StreamAudio_unmount_def StreamAudio_rerender_def StreamAudio_mount_def
        StreamAudio_initial_def StreamAudio_effect_def StreamAudio_cleanup_def
        startStreamAudio_def stopStreamAudio_def current_render_def initAudio_def
        closeAudio_def createStreamSound_def createBubbleSound_def createGentleFlowSound_def
        createSound_def createBufferSource_def source_start_def source_stop_def resume_def
        Let_def split_def)
  from a b c d e show ?thesis by (intro conjI) (erule conjunct1 conjunct2 | simp)+
qed

end
